theory Spec2Isabelle
  imports Complex_Main "HOL-Library.AList" "HOL-Library.Sublist"
begin

section \<open>Data model\<close>

text \<open>
  The persisted state is one JSON document. A JSON value as Python's \<open>json.load\<close> returns
  it: \<open>None\<close>, a bool, a number, a string, a list or a dict. A dict keeps its insertion
  order, so it is an association list; \<open>map_of\<close> is the lookup and \<open>AList.update\<close> the
  assignment \<open>d[k] = v\<close> (in place when the key exists, appended otherwise).
  Numbers (Python's int and float) are exact rationals: the rounding errors, the
  overflow and the special values of double arithmetic are not modelled, so nothing
  below is stated about the last digits of a computed figure.
\<close>

datatype json =
    JNull
  | JBool bool
  | JNum rat
  | JStr string
  | JArr "json list"
  | JObj "(string \<times> json) list"

text \<open>
  The document has the shape year \<open>\<rightarrow>\<close> district \<open>\<rightarrow>\<close> value at its two outer levels.
  A value under a year is a district's record (a dict of attributes) or anything else
  that JSON allows, such as the string stored under the reserved key \<open>timestamp\<close>.
\<close>

type_synonym year_dict = "(string \<times> json) list"
type_synonym store = "(string \<times> year_dict) list"

datatype error =
    FileNotFoundError
  | PermissionError
  | JSONDecodeError
  | OSError
  | KeyError
  | TypeError
  | AttributeError
  | ZeroDivisionError

text \<open>
  The file \<open>static/data/bengaluru_area_temperatures.json\<close>: absent, present but not
  readable, present but not JSON, or a document. \<open>writable\<close> says whether
  \<open>open(file_path, 'w')\<close> succeeds.
\<close>

datatype file_content = Missing | Unreadable | Invalid | Doc store

record world =
  content :: file_content
  writable :: bool

section \<open>Python primitives\<close>

definition bind :: "error + 'a \<Rightarrow> ('a \<Rightarrow> error + 'b) \<Rightarrow> error + 'b" where
  "bind m f = (case m of Inl e \<Rightarrow> Inl e | Inr x \<Rightarrow> f x)"

text \<open>\<open>with open(path, 'r') as f: json.load(f)\<close>, which raises on the first three.\<close>

definition read_json :: "world \<Rightarrow> error + store" where
  "read_json w =
     (case content w of
        Missing \<Rightarrow> Inl FileNotFoundError
      | Unreadable \<Rightarrow> Inl PermissionError
      | Invalid \<Rightarrow> Inl JSONDecodeError
      | Doc data \<Rightarrow> Inr data)"

text \<open>\<open>k in s\<close> for two strings: \<open>k\<close> occurs in \<open>s\<close> as a substring.\<close>

fun str_contains :: "string \<Rightarrow> string \<Rightarrow> bool" where
  "str_contains k [] = (k = [])"
| "str_contains k (c # cs) = (prefix k (c # cs) \<or> str_contains k cs)"

text \<open>
  \<open>k in x\<close> for a string \<open>k\<close>: key membership for a dict, element membership for a
  list, substring for a string, TypeError for a number, a bool and \<open>None\<close>.
\<close>

fun py_in :: "string \<Rightarrow> json \<Rightarrow> error + bool" where
  "py_in k (JObj kvs) = Inr (k \<in> fst ` set kvs)"
| "py_in k (JArr xs) = Inr (JStr k \<in> set xs)"
| "py_in k (JStr s) = Inr (str_contains k s)"
| "py_in k _ = Inl TypeError"

text \<open>\<open>x.get(k, default)\<close>: only a dict has the method.\<close>

fun py_get :: "json \<Rightarrow> string \<Rightarrow> json \<Rightarrow> error + json" where
  "py_get (JObj kvs) k dflt = Inr (case map_of kvs k of None \<Rightarrow> dflt | Some v \<Rightarrow> v)"
| "py_get _ k dflt = Inl AttributeError"

text \<open>
  The operands of \<open>/\<close> and \<open>*\<close>: numbers, and bools as 1 and 0. The quotient is the
  exact one; Python's is the double nearest to it, or OverflowError when two ints have a
  quotient beyond the doubles. When it raises on a zero divisor and on an operand that is
  not a number is the same in both.
\<close>

fun num_of :: "json \<Rightarrow> rat option" where
  "num_of (JNum r) = Some r"
| "num_of (JBool b) = Some (if b then 1 else 0)"
| "num_of _ = None"

definition py_truediv :: "json \<Rightarrow> json \<Rightarrow> error + rat" where
  "py_truediv a b =
     (case (num_of a, num_of b) of
        (Some x, Some y) \<Rightarrow> if y = 0 then Inl ZeroDivisionError else Inr (x / y)
      | _ \<Rightarrow> Inl TypeError)"

text \<open>
  \<open>round(x, 2)\<close>: to the nearest multiple of 0.01, a tie to the even one. Python rounds the
  double it holds, and returns the double nearest to that multiple.
\<close>

definition py_round2 :: "rat \<Rightarrow> rat" where
  "py_round2 x =
     (let n = \<lfloor>x * 100\<rfloor>; f = x * 100 - of_int n
      in of_int (if f < 1 / 2 then n
                 else if 1 / 2 < f then n + 1
                 else if even n then n else n + 1) / 100)"

section \<open>Emission generator (emission\_utils.py)\<close>

datatype density = Urban | Rural | Suburban

record range =
  rmin :: rat
  rmax :: rat

record config =
  transport :: range
  industrial :: range
  residential :: range

fun EMISSION_CONFIG :: "density \<Rightarrow> config" where
  "EMISSION_CONFIG Urban =
     \<lparr>transport = \<lparr>rmin = 1500, rmax = 3000\<rparr>,
      industrial = \<lparr>rmin = 2000, rmax = 5000\<rparr>,
      residential = \<lparr>rmin = 800, rmax = 1500\<rparr>\<rparr>"
| "EMISSION_CONFIG Rural =
     \<lparr>transport = \<lparr>rmin = 200, rmax = 800\<rparr>,
      industrial = \<lparr>rmin = 100, rmax = 1000\<rparr>,
      residential = \<lparr>rmin = 1000, rmax = 2500\<rparr>\<rparr>"
| "EMISSION_CONFIG Suburban =
     \<lparr>transport = \<lparr>rmin = 800, rmax = 1800\<rparr>,
      industrial = \<lparr>rmin = 500, rmax = 2000\<rparr>,
      residential = \<lparr>rmin = 900, rmax = 1800\<rparr>\<rparr>"

definition DISTRICT_TYPES :: "(string \<times> density) list" where
  "DISTRICT_TYPES =
     [(''Bengaluru Urban'', Urban),
      (''Bangalore North'', Urban),
      (''Bangalore East'', Urban),
      (''Bangalore South'', Urban),
      (''Defence Colony'', Urban),
      (''Anekal'', Urban),
      (''Yelahanka taluku'', Urban),
      (''Thanisandra'', Urban),
      (''Herohalli'', Urban),
      (''Nagadevanahalli'', Urban),
      (''Uttarahalli'', Urban),
      (''Vasanthpura'', Urban),
      (''Yelchenahalli'', Urban),
      (''Jaraganahalli'', Urban),
      (''Puttenahalli'', Urban),
      (''Bilekhalli'', Urban),
      (''Kodichikkanahalli'', Urban),
      (''Hosakote'', Suburban),
      (''Devanahalli'', Suburban),
      (''Doddaballapura'', Suburban),
      (''Nelmangala'', Suburban),
      (''Ramanagara'', Suburban),
      (''Chikkaballapura'', Suburban),
      (''Kolar'', Suburban),
      (''Tumakuru'', Suburban),
      (''default'', Rural)]"

text \<open>\<open>DISTRICT_TYPES.get(district, DISTRICT_TYPES['default'])\<close>\<close>

definition district_type_of :: "string \<Rightarrow> density" where
  "district_type_of district =
     (case map_of DISTRICT_TYPES district of
        Some t \<Rightarrow> t
      | None \<Rightarrow> the (map_of DISTRICT_TYPES ''default''))"

text \<open>\<open>random.uniform(a, b)\<close> is \<open>a + (b - a) * random.random()\<close>.\<close>

definition uniform :: "rat \<Rightarrow> rat \<Rightarrow> rat \<Rightarrow> rat" where
  "uniform a b x = a + (b - a) * x"

text \<open>
  The random generator is the sequence \<open>u\<close> of the values that \<open>random.random()\<close>
  returns during a call, each in \<open>[0, 1)\<close>, and the number \<open>k\<close> of values drawn so far.
\<close>

definition get_random_emission ::
  "(nat \<Rightarrow> rat) \<Rightarrow> density \<Rightarrow> nat \<Rightarrow> (string \<times> rat) list \<times> nat" where
  "get_random_emission u district_type k =
     (let config = EMISSION_CONFIG district_type
      in ([(''transport_emission'',
              py_round2 (uniform (rmin (transport config)) (rmax (transport config)) (u k))),
           (''industrial_emission'',
              py_round2 (uniform (rmin (industrial config)) (rmax (industrial config)) (u (k + 1)))),
           (''residential_emission'',
              py_round2 (uniform (rmin (residential config)) (rmax (residential config)) (u (k + 2))))],
          k + 3))"

text \<open>The inner \<open>try\<close> of \<open>load_emission_data\<close>: any exception gives \<open>{}\<close>.\<close>

definition load_emission_data :: "world \<Rightarrow> store" where
  "load_emission_data w = (case read_json w of Inl e \<Rightarrow> [] | Inr data \<Rightarrow> data)"

text \<open>\<open>save_emission_data\<close>: the whole document is written, or False is returned.\<close>

definition save_emission_data :: "store \<Rightarrow> world \<Rightarrow> bool \<times> world" where
  "save_emission_data data w =
     (if writable w then (True, w\<lparr>content := Doc data\<rparr>) else (False, w))"

text \<open>\<open>fs.update(emissions)\<close>: one assignment for each item, in order.\<close>

definition dict_update :: "(string \<times> json) list \<Rightarrow> (string \<times> rat) list \<Rightarrow> (string \<times> json) list" where
  "dict_update fs emissions = fold (\<lambda>(k, v). AList.update k (JNum v)) emissions fs"

text \<open>
  One percentage of the breakdown:
  \<open>round((district_data.get(k, 0) / district_data.get("total_emission", 1)) * 100, 2)\<close>.
  ZeroDivisionError, TypeError and AttributeError arise as in Python. The figure is the
  exact one, which can differ from Python's in the second decimal, and the OverflowError
  of a quotient beyond the doubles is not modelled.
\<close>

definition percentage :: "json \<Rightarrow> string \<Rightarrow> error + json" where
  "percentage district_data k =
     bind (py_get district_data k (JNum 0)) (\<lambda>a.
     bind (py_get district_data ''total_emission'' (JNum 1)) (\<lambda>b.
     bind (py_truediv a b) (\<lambda>q.
     Inr (JNum (py_round2 (q * 100))))))"

text \<open>The dict that \<open>get_emission_by_district\<close> returns, its items evaluated in order.\<close>

definition emission_view :: "string \<Rightarrow> string \<Rightarrow> json \<Rightarrow> error + json" where
  "emission_view district_name year district_data =
     bind (py_get district_data ''transport_emission'' (JNum 0)) (\<lambda>t.
     bind (py_get district_data ''industrial_emission'' (JNum 0)) (\<lambda>i.
     bind (py_get district_data ''residential_emission'' (JNum 0)) (\<lambda>r.
     bind (py_get district_data ''total_emission'' (JNum 0)) (\<lambda>total.
     bind (percentage district_data ''transport_emission'') (\<lambda>pt.
     bind (percentage district_data ''industrial_emission'') (\<lambda>pi.
     bind (percentage district_data ''residential_emission'') (\<lambda>pr.
     Inr (JObj
       [(''district'', JStr district_name),
        (''year'', JStr year),
        (''transport_emission'', t),
        (''industrial_emission'', i),
        (''residential_emission'', r),
        (''total_emission'', total),
        (''breakdown'', JObj
           [(''transport_percentage'', pt),
            (''industrial_percentage'', pi),
            (''residential_percentage'', pr)])]))))))))"

text \<open>\<open>get_emission_by_district\<close>: every exception of its body gives \<open>None\<close>.\<close>

definition get_emission_by_district :: "string \<Rightarrow> string \<Rightarrow> world \<Rightarrow> json option" where
  "get_emission_by_district district_name year w =
     (let data = load_emission_data w
      in case map_of data year of
           None \<Rightarrow> None
         | Some yd \<Rightarrow>
             (case map_of yd district_name of
                None \<Rightarrow> None
              | Some district_data \<Rightarrow>
                  (case py_in ''total_emission'' district_data of
                     Inl e \<Rightarrow> None
                   | Inr False \<Rightarrow> None
                   | Inr True \<Rightarrow>
                       (case emission_view district_name year district_data of
                          Inl e \<Rightarrow> None
                        | Inr v \<Rightarrow> Some v))))"

text \<open>The loop of \<open>get_all_districts_emission_data\<close> over the keys of \<open>data[year]\<close>.\<close>

fun collect_emissions :: "string \<Rightarrow> world \<Rightarrow> string list \<Rightarrow> json list" where
  "collect_emissions year w [] = []"
| "collect_emissions year w (district_name # rest) =
     (if district_name = ''timestamp'' then collect_emissions year w rest
      else case get_emission_by_district district_name year w of
             None \<Rightarrow> collect_emissions year w rest
           | Some emission_data \<Rightarrow> emission_data # collect_emissions year w rest)"

definition get_all_districts_emission_data :: "string \<Rightarrow> world \<Rightarrow> json list" where
  "get_all_districts_emission_data year w =
     (let data = load_emission_data w
      in case map_of data year of
           None \<Rightarrow> []
         | Some yd \<Rightarrow> collect_emissions year w (map fst yd))"

text \<open>
  The inner loop of \<open>add_emission_data_to_json\<close>, over the keys of \<open>data[year]\<close>; the
  state is the number of random values drawn and the year's dict, which the body reads
  and assigns through \<open>data[year][district]\<close>.
\<close>

fun districts_loop ::
  "(nat \<Rightarrow> rat) \<Rightarrow> string list \<Rightarrow> nat \<times> year_dict \<Rightarrow> error + nat \<times> year_dict" where
  "districts_loop u [] st = Inr st"
| "districts_loop u (district # rest) (k, yd) =
     (if district = ''timestamp'' then districts_loop u rest (k, yd)
      else case map_of yd district of
             None \<Rightarrow> Inl KeyError
           | Some district_data \<Rightarrow>
               (case py_in ''total_emission'' district_data of
                  Inl e \<Rightarrow> Inl e
                | Inr True \<Rightarrow> districts_loop u rest (k, yd)
                | Inr False \<Rightarrow>
                    (let (emissions, k') = get_random_emission u (district_type_of district) k;
                         total_emission = sum_list (map snd emissions)
                     in case district_data of
                          JObj fs \<Rightarrow>
                            districts_loop u rest
                              (k', AList.update district
                                     (JObj (AList.update ''total_emission''
                                              (JNum (py_round2 total_emission))
                                              (dict_update fs emissions))) yd)
                        | _ \<Rightarrow> Inl AttributeError)))"

text \<open>The outer loop, over the keys of \<open>data\<close>.\<close>

fun years_loop ::
  "(nat \<Rightarrow> rat) \<Rightarrow> string list \<Rightarrow> nat \<times> store \<Rightarrow> error + nat \<times> store" where
  "years_loop u [] st = Inr st"
| "years_loop u (year # rest) (k, data) =
     (case map_of data year of
        None \<Rightarrow> Inl KeyError
      | Some yd \<Rightarrow>
          (case districts_loop u (map fst yd) (k, yd) of
             Inl e \<Rightarrow> Inl e
           | Inr (k', yd') \<Rightarrow> years_loop u rest (k', AList.update year yd' data)))"

text \<open>
  \<open>add_emission_data_to_json\<close>: an exception in the loops gives False and nothing is
  written; otherwise the result is that of \<open>save_emission_data\<close>.
\<close>

definition add_emission_data_to_json :: "(nat \<Rightarrow> rat) \<Rightarrow> world \<Rightarrow> bool \<times> world" where
  "add_emission_data_to_json u w =
     (let data = load_emission_data w
      in case years_loop u (map fst data) (0, data) of
           Inl e \<Rightarrow> (False, w)
         | Inr (k, data') \<Rightarrow> save_emission_data data' w)"

section \<open>Dispersion and capture stages (dispersion\_utils.py)\<close>

text \<open>One result entry of the dispersion loop; \<open>.get\<close> raises unless the value is a dict.\<close>

definition dispersion_entry :: "string \<Rightarrow> string \<Rightarrow> json \<Rightarrow> error + json" where
  "dispersion_entry year district_name district_data =
     bind (py_get district_data ''co2_concentration'' (JNum 0)) (\<lambda>initial.
     bind (py_get district_data ''co2_concentration_after_dispersion'' (JNum 0)) (\<lambda>final.
     bind (py_get district_data ''total_emission'' (JNum 0)) (\<lambda>total.
     Inr (JObj
       [(''district'', JStr district_name),
        (''year'', JStr year),
        (''initial_concentration'', initial),
        (''final_concentration'', final),
        (''total_emission'', total),
        (''neighbors'', JArr [])]))))"

text \<open>\<open>for district_name, district_data in data[year].items()\<close>, appending in order.\<close>

fun dispersion_loop :: "string \<Rightarrow> year_dict \<Rightarrow> error + json list" where
  "dispersion_loop year [] = Inr []"
| "dispersion_loop year ((district_name, district_data) # rest) =
     (if district_name = ''timestamp'' then dispersion_loop year rest
      else bind (dispersion_entry year district_name district_data) (\<lambda>entry.
           bind (dispersion_loop year rest) (\<lambda>results.
           Inr (entry # results))))"

definition dispersion_extract :: "string \<Rightarrow> store \<Rightarrow> error + json list" where
  "dispersion_extract year data =
     (case map_of data year of
        None \<Rightarrow> Inr []
      | Some yd \<Rightarrow> dispersion_loop year yd)"

definition get_dispersion_results :: "string \<Rightarrow> world \<Rightarrow> json list" where
  "get_dispersion_results year w =
     (case bind (read_json w) (dispersion_extract year) of
        Inl e \<Rightarrow> []
      | Inr results \<Rightarrow> results)"

text \<open>
  The diffusion kernel, \<open>node dispersionModel.js steps wind_speed wind_direction\<close>, is
  outside the repository: it is a parameter. From the three arguments and the world it
  either cannot be started (\<open>subprocess.run\<close> raises) or runs, leaving an exit status,
  its error stream and the world as it changed it.
\<close>

record completed_process =
  returncode :: int
  stderr :: string

type_synonym kernel =
  "int \<Rightarrow> rat \<Rightarrow> string \<Rightarrow> world \<Rightarrow> error + completed_process \<times> world"

text \<open>
  The value of the \<open>error\<close> key: a text, or a prefix followed by \<open>str(e)\<close> of a caught
  exception, whose text is not modelled.
\<close>

datatype message = Msg string | Msg_exn string error

datatype outcome = Error message | Success json

definition run_dispersion_simulation ::
  "kernel \<Rightarrow> int \<Rightarrow> rat \<Rightarrow> string \<Rightarrow> string \<Rightarrow> world \<Rightarrow> outcome \<times> world" where
  "run_dispersion_simulation run steps wind_speed wind_direction year w =
     (case run steps wind_speed wind_direction w of
        Inl e \<Rightarrow> (Error (Msg_exn ''Error running dispersion simulation: '' e), w)
      | Inr (result, w') \<Rightarrow>
          if returncode result \<noteq> 0
          then (Error (Msg (''Dispersion simulation failed: '' @ stderr result)), w')
          else (case bind (read_json w') (dispersion_extract year) of
                  Inl e \<Rightarrow> (Error (Msg_exn ''Error running dispersion simulation: '' e), w')
                | Inr results \<Rightarrow>
                    (Success (JObj
                       [(''success'', JBool True),
                        (''simulation_params'', JObj
                           [(''steps'', JNum (of_int steps)),
                            (''wind'', JObj
                               [(''speed'', JNum wind_speed),
                                (''direction'', JStr wind_direction)]),
                            (''year'', JStr year)]),
                        (''results'', JArr results),
                        (''total_districts'', JNum (of_nat (length results)))]), w')))"

definition capture_entry :: "string \<Rightarrow> string \<Rightarrow> json \<Rightarrow> error + json" where
  "capture_entry year district_name district_data =
     bind (py_get district_data ''co2_before_capture'' (JNum 0)) (\<lambda>before.
     bind (py_get district_data ''co2_after_capture'' (JNum 0)) (\<lambda>after.
     bind (py_get district_data ''total_capture'' (JNum 0)) (\<lambda>capture.
     bind (py_get district_data ''percent_reduction'' (JNum 0)) (\<lambda>reduction.
     bind (py_get district_data ''interventions'' (JObj [])) (\<lambda>interventions.
     bind (py_get district_data ''total_emission'' (JNum 0)) (\<lambda>total.
     Inr (JObj
       [(''district'', JStr district_name),
        (''year'', JStr year),
        (''co2_before_capture'', before),
        (''co2_after_capture'', after),
        (''total_capture'', capture),
        (''percent_reduction'', reduction),
        (''interventions'', interventions),
        (''total_emission'', total)])))))))"

fun capture_loop :: "string \<Rightarrow> year_dict \<Rightarrow> error + json list" where
  "capture_loop year [] = Inr []"
| "capture_loop year ((district_name, district_data) # rest) =
     (if district_name = ''timestamp'' then capture_loop year rest
      else bind (capture_entry year district_name district_data) (\<lambda>entry.
           bind (capture_loop year rest) (\<lambda>results.
           Inr (entry # results))))"

definition get_capture_results :: "string \<Rightarrow> world \<Rightarrow> json list" where
  "get_capture_results year w =
     (case bind (read_json w)
             (\<lambda>data. case map_of data year of
                        None \<Rightarrow> Inr []
                      | Some yd \<Rightarrow> capture_loop year yd) of
        Inl e \<Rightarrow> []
      | Inr results \<Rightarrow> results)"

section \<open>Relations between a document and what the generator makes of it\<close>

text \<open>The test \<open>'total_emission' in data[year][district]\<close> succeeds: the loop skips the entry.\<close>

definition has_total :: "json \<Rightarrow> bool" where
  "has_total x \<longleftrightarrow> py_in ''total_emission'' x = Inr True"

text \<open>An entry on which the body of the loop raises nothing: it is skipped, or it is a dict.\<close>

definition passes :: "json \<Rightarrow> bool" where
  "passes x \<longleftrightarrow> has_total x \<or> (case x of JObj fs \<Rightarrow> True | _ \<Rightarrow> False)"

text \<open>
  The record that the body of the loop stores for \<open>district\<close>, from the attributes \<open>fs\<close>,
  when \<open>k\<close> random values were drawn before.
\<close>

definition populated ::
  "(nat \<Rightarrow> rat) \<Rightarrow> string \<Rightarrow> nat \<Rightarrow> (string \<times> json) list \<Rightarrow> (string \<times> json) list" where
  "populated u district k fs =
     (let emissions = fst (get_random_emission u (district_type_of district) k)
      in AList.update ''total_emission'' (JNum (py_round2 (sum_list (map snd emissions))))
           (dict_update fs emissions))"

text \<open>
  \<open>yd'\<close> has the keys of \<open>yd\<close>, in order, and each value is the one of \<open>yd\<close> or, for a
  district other than \<open>timestamp\<close> whose value was a dict without \<open>total_emission\<close>, that
  dict populated.
\<close>

definition fills :: "(nat \<Rightarrow> rat) \<Rightarrow> year_dict \<Rightarrow> year_dict \<Rightarrow> bool" where
  "fills u yd yd' \<longleftrightarrow>
     map fst yd' = map fst yd \<and>
     (\<forall>d. map_of yd' d = map_of yd d \<or>
          (d \<noteq> ''timestamp'' \<and>
           (\<exists>fs j. map_of yd d = Some (JObj fs) \<and> \<not> has_total (JObj fs) \<and>
                   map_of yd' d = Some (JObj (populated u d j fs)))))"

definition fills_store :: "(nat \<Rightarrow> rat) \<Rightarrow> store \<Rightarrow> store \<Rightarrow> bool" where
  "fills_store u data data' \<longleftrightarrow>
     map fst data' = map fst data \<and>
     (\<forall>y. rel_option (fills u) (map_of data y) (map_of data' y))"

text \<open>Every district of the list, \<open>timestamp\<close> apart, has \<open>total_emission\<close> in \<open>yd\<close>.\<close>

definition filled_on :: "string list \<Rightarrow> year_dict \<Rightarrow> bool" where
  "filled_on ds yd \<longleftrightarrow>
     (\<forall>d \<in> set ds. d \<noteq> ''timestamp'' \<longrightarrow> (\<exists>x. map_of yd d = Some x \<and> has_total x))"

definition year_complete :: "year_dict \<Rightarrow> bool" where
  "year_complete yd \<longleftrightarrow> filled_on (map fst yd) yd"

text \<open>Every district of the list, \<open>timestamp\<close> apart, passes the body of the loop.\<close>

definition pass_on :: "string list \<Rightarrow> year_dict \<Rightarrow> bool" where
  "pass_on ds yd \<longleftrightarrow>
     (\<forall>d \<in> set ds. d \<noteq> ''timestamp'' \<longrightarrow> (\<exists>x. map_of yd d = Some x \<and> passes x))"

definition all_pass :: "year_dict \<Rightarrow> bool" where
  "all_pass yd \<longleftrightarrow> pass_on (map fst yd) yd"

section \<open>Query contracts\<close>

lemma bind_Inr_iff: "bind m f = Inr y \<longleftrightarrow> (\<exists>x. m = Inr x \<and> f x = Inr y)"
  by (cases m) (simp_all add: bind_def)

lemma emission_view_district:
  "emission_view d y x = Inr v \<Longrightarrow>
     \<exists>fs. v = JObj fs \<and> map_of fs ''district'' = Some (JStr d)"
  unfolding emission_view_def bind_Inr_iff by auto

lemma get_emission_by_district_Some:
  "get_emission_by_district d y w = Some v \<Longrightarrow>
     \<exists>fs. v = JObj fs \<and> map_of fs ''district'' = Some (JStr d)"
  unfolding get_emission_by_district_def Let_def
  by (auto split: option.splits sum.splits bool.splits dest: emission_view_district)

lemma collect_emissions_mem:
  "v \<in> set (collect_emissions y w ds) \<Longrightarrow>
     \<exists>d. d \<noteq> ''timestamp'' \<and> get_emission_by_district d y w = Some v"
  by (induction ds) (auto split: if_splits option.splits)

lemma dispersion_entry_district:
  "dispersion_entry y d x = Inr v \<Longrightarrow>
     \<exists>fs. v = JObj fs \<and> map_of fs ''district'' = Some (JStr d)"
  unfolding dispersion_entry_def bind_Inr_iff by auto

lemma capture_entry_district:
  "capture_entry y d x = Inr v \<Longrightarrow>
     \<exists>fs. v = JObj fs \<and> map_of fs ''district'' = Some (JStr d)"
  unfolding capture_entry_def bind_Inr_iff by auto

lemma dispersion_loop_mem:
  "dispersion_loop y yd = Inr rs \<Longrightarrow> v \<in> set rs \<Longrightarrow>
     \<exists>d fs. d \<noteq> ''timestamp'' \<and> v = JObj fs \<and> map_of fs ''district'' = Some (JStr d)"
proof (induction yd arbitrary: rs)
  case Nil
  then show ?case by simp
next
  case (Cons p yd)
  obtain d x where p: "p = (d, x)" by (cases p)
  show ?case
  proof (cases "d = ''timestamp''")
    case True
    with Cons p show ?thesis by simp
  next
    case False
    with Cons.prems(1) p obtain e es where
      e: "dispersion_entry y d x = Inr e" and es: "dispersion_loop y yd = Inr es"
      and rs: "rs = e # es"
      by (auto simp: bind_Inr_iff)
    from Cons.prems(2) rs consider "v = e" | "v \<in> set es" by auto
    then show ?thesis
    proof cases
      case 1
      with dispersion_entry_district[OF e] False show ?thesis by blast
    next
      case 2
      with Cons.IH[OF es] show ?thesis by blast
    qed
  qed
qed

lemma capture_loop_mem:
  "capture_loop y yd = Inr rs \<Longrightarrow> v \<in> set rs \<Longrightarrow>
     \<exists>d fs. d \<noteq> ''timestamp'' \<and> v = JObj fs \<and> map_of fs ''district'' = Some (JStr d)"
proof (induction yd arbitrary: rs)
  case Nil
  then show ?case by simp
next
  case (Cons p yd)
  obtain d x where p: "p = (d, x)" by (cases p)
  show ?case
  proof (cases "d = ''timestamp''")
    case True
    with Cons p show ?thesis by simp
  next
    case False
    with Cons.prems(1) p obtain e es where
      e: "capture_entry y d x = Inr e" and es: "capture_loop y yd = Inr es"
      and rs: "rs = e # es"
      by (auto simp: bind_Inr_iff)
    from Cons.prems(2) rs consider "v = e" | "v \<in> set es" by auto
    then show ?thesis
    proof cases
      case 1
      with capture_entry_district[OF e] False show ?thesis by blast
    next
      case 2
      with Cons.IH[OF es] show ?thesis by blast
    qed
  qed
qed

lemma get_all_districts_emission_data_mem:
  assumes "v \<in> set (get_all_districts_emission_data year w)"
  shows "\<exists>d. d \<noteq> ''timestamp'' \<and> get_emission_by_district d year w = Some v"
proof (cases "map_of (load_emission_data w) year")
  case None
  with assms show ?thesis by (simp add: get_all_districts_emission_data_def)
next
  case (Some yd)
  with assms have "v \<in> set (collect_emissions year w (map fst yd))"
    by (simp add: get_all_districts_emission_data_def)
  then show ?thesis by (rule collect_emissions_mem)
qed

lemma get_dispersion_results_cases:
  "get_dispersion_results year w = [] \<or>
   (\<exists>yd. dispersion_loop year yd = Inr (get_dispersion_results year w))"
proof (cases "read_json w")
  case (Inl e)
  then show ?thesis by (simp add: get_dispersion_results_def bind_def)
next
  case (Inr data)
  show ?thesis
  proof (cases "map_of data year")
    case None
    with Inr show ?thesis
      by (simp add: get_dispersion_results_def bind_def dispersion_extract_def)
  next
    case (Some yd)
    show ?thesis
    proof (cases "dispersion_loop year yd")
      case (Inl e)
      with Inr Some show ?thesis
        by (simp add: get_dispersion_results_def bind_def dispersion_extract_def)
    next
      case (Inr rs)
      with \<open>read_json w = Inr data\<close> Some have "get_dispersion_results year w = rs"
        by (simp add: get_dispersion_results_def bind_def dispersion_extract_def)
      with Inr show ?thesis by auto
    qed
  qed
qed

lemma get_capture_results_cases:
  "get_capture_results year w = [] \<or>
   (\<exists>yd. capture_loop year yd = Inr (get_capture_results year w))"
proof (cases "read_json w")
  case (Inl e)
  then show ?thesis by (simp add: get_capture_results_def bind_def)
next
  case (Inr data)
  show ?thesis
  proof (cases "map_of data year")
    case None
    with Inr show ?thesis
      by (simp add: get_capture_results_def bind_def)
  next
    case (Some yd)
    show ?thesis
    proof (cases "capture_loop year yd")
      case (Inl e)
      with Inr Some show ?thesis
        by (simp add: get_capture_results_def bind_def)
    next
      case (Inr rs)
      with \<open>read_json w = Inr data\<close> Some have "get_capture_results year w = rs"
        by (simp add: get_capture_results_def bind_def)
      with Inr show ?thesis by auto
    qed
  qed
qed


text \<open>
  Claim C7. Whatever the world and the year, every entry that
  \<open>get_all_districts_emission_data\<close>, \<open>get_dispersion_results\<close> and
  \<open>get_capture_results\<close> return is a dict whose \<open>district\<close> is a name other than
  \<open>timestamp\<close>: the reserved key never yields an entry.
\<close>

theorem no_timestamp_entry:
  "(\<forall>v \<in> set (get_all_districts_emission_data year w).
      \<exists>d fs. d \<noteq> ''timestamp'' \<and> v = JObj fs \<and> map_of fs ''district'' = Some (JStr d)) \<and>
   (\<forall>v \<in> set (get_dispersion_results year w).
      \<exists>d fs. d \<noteq> ''timestamp'' \<and> v = JObj fs \<and> map_of fs ''district'' = Some (JStr d)) \<and>
   (\<forall>v \<in> set (get_capture_results year w).
      \<exists>d fs. d \<noteq> ''timestamp'' \<and> v = JObj fs \<and> map_of fs ''district'' = Some (JStr d))"
proof (intro conjI ballI)
  fix v assume "v \<in> set (get_all_districts_emission_data year w)"
  from get_all_districts_emission_data_mem[OF this] obtain d where
    d: "d \<noteq> ''timestamp''" "get_emission_by_district d year w = Some v"
    by (elim exE conjE)
  from get_emission_by_district_Some[OF d(2)] obtain fs where
    fs: "v = JObj fs" "map_of fs ''district'' = Some (JStr d)"
    by (elim exE conjE)
  from d(1) fs
  show "\<exists>d fs. d \<noteq> ''timestamp'' \<and> v = JObj fs \<and> map_of fs ''district'' = Some (JStr d)"
    by (intro exI conjI)
next
  fix v assume v: "v \<in> set (get_dispersion_results year w)"
  then have "get_dispersion_results year w \<noteq> []" by auto
  with get_dispersion_results_cases[of year w] obtain yd where
    "dispersion_loop year yd = Inr (get_dispersion_results year w)" by (elim disjE exE) simp_all
  from dispersion_loop_mem[OF this v]
  show "\<exists>d fs. d \<noteq> ''timestamp'' \<and> v = JObj fs \<and> map_of fs ''district'' = Some (JStr d)" .
next
  fix v assume v: "v \<in> set (get_capture_results year w)"
  then have "get_capture_results year w \<noteq> []" by auto
  with get_capture_results_cases[of year w] obtain yd where
    "capture_loop year yd = Inr (get_capture_results year w)" by (elim disjE exE) simp_all
  from capture_loop_mem[OF this v]
  show "\<exists>d fs. d \<noteq> ''timestamp'' \<and> v = JObj fs \<and> map_of fs ''district'' = Some (JStr d)" .
qed

theorem no_timestamp_entry_witness:
  "(\<exists>d fs. d \<noteq> ''timestamp'' \<and>
      hd (get_all_districts_emission_data ''2025''
            \<lparr>content = Doc [(''2025'', [(''timestamp'', JStr ''t0''),
                (''Kolar'', JObj [(''total_emission'', JNum 5)])])], writable = True\<rparr>) = JObj fs \<and>
      map_of fs ''district'' = Some (JStr d)) \<and>
   (\<exists>d fs. d \<noteq> ''timestamp'' \<and>
      hd (get_dispersion_results ''2025''
            \<lparr>content = Doc [(''2025'', [(''timestamp'', JStr ''t0''),
                (''Kolar'', JObj [(''total_emission'', JNum 5)])])], writable = True\<rparr>) = JObj fs \<and>
      map_of fs ''district'' = Some (JStr d)) \<and>
   (\<exists>d fs. d \<noteq> ''timestamp'' \<and>
      hd (get_capture_results ''2025''
            \<lparr>content = Doc [(''2025'', [(''timestamp'', JStr ''t0''),
                (''Kolar'', JObj [(''total_emission'', JNum 5)])])], writable = True\<rparr>) = JObj fs \<and>
      map_of fs ''district'' = Some (JStr d))"
proof -
  let ?w = "\<lparr>content = Doc [(''2025'', [(''timestamp'', JStr ''t0''),
                (''Kolar'', JObj [(''total_emission'', JNum 5)])])], writable = True\<rparr>"
  have e: "get_all_districts_emission_data ''2025'' ?w \<noteq> []"
    by (simp add: get_all_districts_emission_data_def get_emission_by_district_def
        load_emission_data_def read_json_def emission_view_def percentage_def bind_def
        py_truediv_def)
  have d: "get_dispersion_results ''2025'' ?w \<noteq> []"
    by (simp add: get_dispersion_results_def dispersion_extract_def read_json_def
        dispersion_entry_def bind_def)
  have c: "get_capture_results ''2025'' ?w \<noteq> []"
    by (simp add: get_capture_results_def read_json_def capture_entry_def bind_def)
  note all = no_timestamp_entry[of "''2025''" ?w]
  from all have 1: "\<forall>v \<in> set (get_all_districts_emission_data ''2025'' ?w).
      \<exists>d fs. d \<noteq> ''timestamp'' \<and> v = JObj fs \<and> map_of fs ''district'' = Some (JStr d)"
    by (rule conjunct1)
  from all have 2: "\<forall>v \<in> set (get_dispersion_results ''2025'' ?w).
      \<exists>d fs. d \<noteq> ''timestamp'' \<and> v = JObj fs \<and> map_of fs ''district'' = Some (JStr d)"
    by (elim conjE)
  from all have 3: "\<forall>v \<in> set (get_capture_results ''2025'' ?w).
      \<exists>d fs. d \<noteq> ''timestamp'' \<and> v = JObj fs \<and> map_of fs ''district'' = Some (JStr d)"
    by (elim conjE)
  from bspec[OF 1 hd_in_set[OF e]] bspec[OF 2 hd_in_set[OF d]] bspec[OF 3 hd_in_set[OF c]]
  show ?thesis by (intro conjI)
qed

text \<open>
  Claim C8. When the year is not a key of the stored document, each of
  \<open>get_all_districts_emission_data\<close>, \<open>get_dispersion_results\<close> and
  \<open>get_capture_results\<close> returns the empty list.
\<close>

theorem missing_year_empty:
  assumes "content w = Doc data" and "year \<notin> fst ` set data"
  shows "get_all_districts_emission_data year w = [] \<and>
         get_dispersion_results year w = [] \<and>
         get_capture_results year w = []"
proof -
  from assms(2) have "map_of data year = None"
    by (simp add: map_of_eq_None_iff)
  with assms(1) show ?thesis
    by (simp add: get_all_districts_emission_data_def load_emission_data_def read_json_def
        get_dispersion_results_def dispersion_extract_def get_capture_results_def bind_def)
qed

theorem missing_year_empty_witness:
  "get_all_districts_emission_data ''2031''
     \<lparr>content = Doc [(''2025'', [(''Kolar'', JObj [(''total_emission'', JNum 5)])])],
      writable = False\<rparr> = [] \<and>
   get_dispersion_results ''2031''
     \<lparr>content = Doc [(''2025'', [(''Kolar'', JObj [(''total_emission'', JNum 5)])])],
      writable = False\<rparr> = [] \<and>
   get_capture_results ''2031''
     \<lparr>content = Doc [(''2025'', [(''Kolar'', JObj [(''total_emission'', JNum 5)])])],
      writable = False\<rparr> = []"
  using missing_year_empty[of
      "\<lparr>content = Doc [(''2025'', [(''Kolar'', JObj [(''total_emission'', JNum 5)])])],
        writable = False\<rparr>"
      "[(''2025'', [(''Kolar'', JObj [(''total_emission'', JNum 5)])])]" "''2031''"]
  by simp

section \<open>Dispersion stage\<close>

text \<open>
  Claim C10. When \<open>run_dispersion_simulation\<close> succeeds, the list under \<open>results\<close> in its
  return value is the list that \<open>get_dispersion_results\<close> returns for the same year on
  the world as the run left it.
\<close>

theorem run_dispersion_results_agree:
  assumes "run_dispersion_simulation run steps wind_speed wind_direction year w = (Success v, w')"
  shows "\<exists>fs. v = JObj fs \<and> map_of fs ''results'' = Some (JArr (get_dispersion_results year w'))"
  using assms
  unfolding run_dispersion_simulation_def get_dispersion_results_def
  by (auto split: sum.splits if_splits prod.splits)

theorem run_dispersion_results_agree_witness:
  "\<exists>v fs. run_dispersion_simulation
       (\<lambda>steps wind_speed wind_direction w.
          Inr (\<lparr>returncode = 0, stderr = []\<rparr>,
               w\<lparr>content := Doc [(''2025'', [(''timestamp'', JStr ''t1''),
                    (''Kolar'', JObj [(''co2_concentration_after_dispersion'', JNum 7)])])]\<rparr>))
       20 5 ''NE'' ''2025'' \<lparr>content = Missing, writable = True\<rparr>
     = (Success v,
        \<lparr>content = Doc [(''2025'', [(''timestamp'', JStr ''t1''),
            (''Kolar'', JObj [(''co2_concentration_after_dispersion'', JNum 7)])])],
         writable = True\<rparr>) \<and>
     v = JObj fs \<and>
     map_of fs ''results'' = Some (JArr (get_dispersion_results ''2025''
        \<lparr>content = Doc [(''2025'', [(''timestamp'', JStr ''t1''),
            (''Kolar'', JObj [(''co2_concentration_after_dispersion'', JNum 7)])])],
         writable = True\<rparr>))"
proof -
  let ?run = "\<lambda>(steps::int) (wind_speed::rat) (wind_direction::string) w.
          Inr (\<lparr>returncode = 0, stderr = []\<rparr>,
               w\<lparr>content := Doc [(''2025'', [(''timestamp'', JStr ''t1''),
                    (''Kolar'', JObj [(''co2_concentration_after_dispersion'', JNum 7)])])]\<rparr>)"
  let ?w = "\<lparr>content = Missing, writable = True\<rparr>"
  let ?w' = "\<lparr>content = Doc [(''2025'', [(''timestamp'', JStr ''t1''),
            (''Kolar'', JObj [(''co2_concentration_after_dispersion'', JNum 7)])])],
         writable = True\<rparr>"
  obtain v where v: "run_dispersion_simulation ?run 20 5 ''NE'' ''2025'' ?w = (Success v, ?w')"
    by (simp add: run_dispersion_simulation_def read_json_def dispersion_extract_def
        dispersion_entry_def bind_def)
  from run_dispersion_results_agree[OF v] obtain fs where
    "v = JObj fs" "map_of fs ''results'' = Some (JArr (get_dispersion_results ''2025'' ?w'))"
    by (elim exE conjE)
  with v show ?thesis by (intro exI conjI)
qed

text \<open>
  Claim C5, as the code has it. When the diffusion kernel, run for
  \<open>run_dispersion_simulation(20, 5, 'NE', '2025')\<close>, exits with status 1 and the error
  stream \<open>bad wind value\<close>, the return value is the error dict whose message is
  \<open>Dispersion simulation failed: bad wind value\<close> (the prefix, then the error stream),
  there is no result list, and the world is the one the kernel left: the function writes
  nothing.
\<close>

theorem kernel_failure_message:
  assumes "run 20 5 ''NE'' w = Inr (result, w')"
    and "returncode result = 1" and "stderr result = ''bad wind value''"
  shows "run_dispersion_simulation run 20 5 ''NE'' ''2025'' w =
           (Error (Msg ''Dispersion simulation failed: bad wind value''), w')"
  using assms by (simp add: run_dispersion_simulation_def)

theorem kernel_failure_message_witness:
  "run_dispersion_simulation
     (\<lambda>steps wind_speed wind_direction w.
        Inr (\<lparr>returncode = 1, stderr = ''bad wind value''\<rparr>, w))
     20 5 ''NE'' ''2025''
     \<lparr>content = Doc [(''2025'', [(''Kolar'', JObj [])])], writable = True\<rparr> =
   (Error (Msg ''Dispersion simulation failed: bad wind value''),
    \<lparr>content = Doc [(''2025'', [(''Kolar'', JObj [])])], writable = True\<rparr>)"
  using kernel_failure_message[of
      "\<lambda>steps wind_speed wind_direction w.
         Inr (\<lparr>returncode = 1, stderr = ''bad wind value''\<rparr>, w)"
      "\<lparr>content = Doc [(''2025'', [(''Kolar'', JObj [])])], writable = True\<rparr>"
      "\<lparr>returncode = 1, stderr = ''bad wind value''\<rparr>"
      "\<lparr>content = Doc [(''2025'', [(''Kolar'', JObj [])])], writable = True\<rparr>"]
  by simp

text \<open>
  Claim C5, as the specification states it, fails: in that scenario the message is not
  exactly \<open>bad wind value\<close>.
\<close>

theorem kernel_failure_message_counterexample:
  "fst (run_dispersion_simulation
          (\<lambda>steps wind_speed wind_direction w.
             Inr (\<lparr>returncode = 1, stderr = ''bad wind value''\<rparr>, w))
          20 5 ''NE'' ''2025''
          \<lparr>content = Doc [(''2025'', [(''Kolar'', JObj [])])], writable = True\<rparr>)
     \<noteq> Error (Msg ''bad wind value'')"
  by (simp add: run_dispersion_simulation_def)

section \<open>Emission queries\<close>

text \<open>
  Claim C2 does not hold of the code. For a record whose \<open>total_emission\<close> is 0 the first
  percentage divides by zero; the exception is caught and \<open>get_emission_by_district\<close>
  returns \<open>None\<close>, not a view with a breakdown of 0%.
\<close>

theorem zero_total_gives_none:
  "percentage
     (JObj [(''transport_emission'', JNum 0), (''industrial_emission'', JNum 0),
            (''residential_emission'', JNum 0), (''total_emission'', JNum 0)])
     ''transport_emission'' = Inl ZeroDivisionError \<and>
   get_emission_by_district ''Kolar'' ''2025''
     \<lparr>content = Doc [(''2025'', [(''Kolar'',
          JObj [(''transport_emission'', JNum 0), (''industrial_emission'', JNum 0),
                (''residential_emission'', JNum 0), (''total_emission'', JNum 0)])])],
      writable = True\<rparr> = None"
  by (simp add: get_emission_by_district_def load_emission_data_def read_json_def
      emission_view_def percentage_def bind_def py_truediv_def)

section \<open>Rounding\<close>

lemma py_round2_cases:
  obtains m :: int where "py_round2 x = of_int m / 100"
    and "\<bar>of_int m - x * 100\<bar> \<le> 1 / 2"
proof -
  define n where "n = \<lfloor>x * 100\<rfloor>"
  define f where "f = x * 100 - of_int n"
  have f0: "0 \<le> f" and f1: "f < 1"
    unfolding f_def n_def by linarith+
  define m where "m = (if f < 1 / 2 then n else if 1 / 2 < f then n + 1
                       else if even n then n else n + 1)"
  have r: "py_round2 x = of_int m / 100"
    unfolding py_round2_def Let_def m_def f_def n_def by simp
  have "\<bar>of_int m - x * 100\<bar> \<le> 1 / 2"
  proof -
    have x: "x * 100 = of_int n + f" unfolding f_def by simp
    show ?thesis unfolding x m_def using f0 f1 by (auto simp: abs_if)
  qed
  with r show ?thesis by (rule that)
qed

lemma py_round2_bounds:
  assumes "of_int a \<le> x" and "x \<le> of_int b"
  shows "of_int a \<le> py_round2 x \<and> py_round2 x \<le> of_int b"
proof -
  obtain m :: int where m: "py_round2 x = of_int m / 100" "\<bar>of_int m - x * 100\<bar> \<le> 1 / 2"
    by (rule py_round2_cases)
  from m(2) have m_lo: "x * 100 - 1 / 2 \<le> of_int m" and m_hi: "of_int m \<le> x * 100 + 1 / 2"
    by linarith+
  from assms(1) m_lo have "(of_int a :: rat) * 100 < of_int m + 1" by linarith
  then have "(of_int (a * 100) :: rat) < of_int (m + 1)" by simp
  then have lo: "a * 100 \<le> m" unfolding of_int_less_iff by simp
  from assms(2) m_hi have "(of_int m :: rat) < of_int b * 100 + 1" by linarith
  then have "(of_int m :: rat) < of_int (b * 100 + 1)" by simp
  then have hi: "m \<le> b * 100" unfolding of_int_less_iff by simp
  from lo have "(of_int (a * 100) :: rat) \<le> of_int m" unfolding of_int_le_iff .
  moreover from hi have "(of_int m :: rat) \<le> of_int (b * 100)" unfolding of_int_le_iff .
  ultimately show ?thesis unfolding m(1) by simp
qed

section \<open>Store input and output\<close>




section \<open>The generator's loops\<close>

lemma has_total_JObj: "has_total (JObj fs) \<longleftrightarrow> ''total_emission'' \<in> fst ` set fs"
  by (simp add: has_total_def)

lemma has_total_populated: "has_total (JObj (populated u d j fs))"
  by (simp add: has_total_JObj populated_def Let_def dom_update)

lemma passes_JObj: "passes (JObj fs)"
  by (simp add: passes_def)

lemma passes_has_total: "has_total x \<Longrightarrow> passes x"
  by (simp add: passes_def)

lemma fills_refl: "fills u yd yd"
  by (simp add: fills_def)

lemma fills_keys: "fills u yd yd' \<Longrightarrow> map fst yd' = map fst yd"
  by (simp add: fills_def)

lemma fills_cases:
  assumes "fills u yd yd'"
  obtains (same) "map_of yd' d = map_of yd d"
  | (filled) fs j where "d \<noteq> ''timestamp''" "map_of yd d = Some (JObj fs)"
      "\<not> has_total (JObj fs)" "map_of yd' d = Some (JObj (populated u d j fs))"
  using assms unfolding fills_def by (elim conjE allE[of _ d] disjE exE) simp_all

lemma fillsI:
  assumes "map fst yd' = map fst yd"
    and "\<And>d. map_of yd' d = map_of yd d \<or>
          (d \<noteq> ''timestamp'' \<and>
           (\<exists>fs j. map_of yd d = Some (JObj fs) \<and> \<not> has_total (JObj fs) \<and>
                   map_of yd' d = Some (JObj (populated u d j fs))))"
  shows "fills u yd yd'"
  unfolding fills_def using assms by simp

lemma fills_filledI:
  assumes "d \<noteq> ''timestamp''" and "map_of yd d = Some (JObj fs)"
    and "\<not> has_total (JObj fs)" and "map_of yd' d = Some (JObj (populated u d j fs))"
  shows "map_of yd' d = map_of yd d \<or>
          (d \<noteq> ''timestamp'' \<and>
           (\<exists>fs j. map_of yd d = Some (JObj fs) \<and> \<not> has_total (JObj fs) \<and>
                   map_of yd' d = Some (JObj (populated u d j fs))))"
  apply (rule disjI2)
  apply (rule conjI)
   apply (rule assms(1))
  apply (rule exI[of _ fs])
  apply (rule exI[of _ j])
  apply (intro conjI)
    apply (rule assms(2))
   apply (rule assms(3))
  apply (rule assms(4))
  done

lemma fills_keeps:
  assumes "fills u yd yd'" and "map_of yd d = Some x" and "d = ''timestamp'' \<or> has_total x"
  shows "map_of yd' d = Some x"
  using assms(1)
proof (cases rule: fills_cases[where d = d])
  case same
  with assms(2) show ?thesis by simp
next
  case (filled fs j)
  with assms(2,3) show ?thesis by simp
qed

lemma fills_trans:
  assumes ab: "fills u a b" and bc: "fills u b c"
  shows "fills u a c"
proof (rule fillsI)
  from ab bc show "map fst c = map fst a" by (simp add: fills_def)
next
  fix d
  from ab show "map_of c d = map_of a d \<or>
          (d \<noteq> ''timestamp'' \<and>
           (\<exists>fs j. map_of a d = Some (JObj fs) \<and> \<not> has_total (JObj fs) \<and>
                   map_of c d = Some (JObj (populated u d j fs))))"
  proof (cases rule: fills_cases[where d = d])
    case same
    from bc show ?thesis
    proof (cases rule: fills_cases[where d = d])
      case same
      with \<open>map_of b d = map_of a d\<close> show ?thesis by simp
    next
      case (filled fs j)
      from same filled(2) have "map_of a d = Some (JObj fs)" by simp
      with filled(1) show ?thesis using filled(3,4) by (rule fills_filledI)
    qed
  next
    case (filled fs j)
    from fills_keeps[OF bc filled(4)] has_total_populated
    have "map_of c d = Some (JObj (populated u d j fs))" by simp
    with filled(1,2,3) show ?thesis by (rule fills_filledI)
  qed
qed

lemma fills_update:
  assumes "map_of yd d = Some (JObj fs)" and "\<not> has_total (JObj fs)" and "d \<noteq> ''timestamp''"
  shows "fills u yd (AList.update d (JObj (populated u d j fs)) yd)"
proof (rule fillsI)
  from assms(1) have "d \<in> fst ` set yd"
    by (metis domI dom_map_of_conv_image_fst)
  then show "map fst (AList.update d (JObj (populated u d j fs)) yd) = map fst yd"
    by (simp add: update_keys)
next
  fix d'
  show "map_of (AList.update d (JObj (populated u d j fs)) yd) d' = map_of yd d' \<or>
          (d' \<noteq> ''timestamp'' \<and>
           (\<exists>fs' j'. map_of yd d' = Some (JObj fs') \<and> \<not> has_total (JObj fs') \<and>
                   map_of (AList.update d (JObj (populated u d j fs)) yd) d'
                     = Some (JObj (populated u d' j' fs'))))"
  proof (cases "d' = d")
    case True
    have "map_of (AList.update d (JObj (populated u d j fs)) yd) d
            = Some (JObj (populated u d j fs))"
      by (simp add: update_conv')
    with assms(3,1,2) show ?thesis unfolding True by (rule fills_filledI)
  next
    case False
    then show ?thesis by (simp add: update_conv')
  qed
qed

lemma get_random_emission_snd: "snd (get_random_emission u c k) = k + 3"
  by (simp add: get_random_emission_def Let_def)

lemma districts_loop_timestamp:
  "districts_loop u (''timestamp'' # ds) (k, yd) = districts_loop u ds (k, yd)"
  by simp

lemma districts_loop_skip:
  assumes "d \<noteq> ''timestamp''" and "map_of yd d = Some x" and "has_total x"
  shows "districts_loop u (d # ds) (k, yd) = districts_loop u ds (k, yd)"
  using assms by (simp add: has_total_def)

lemma districts_loop_fill:
  assumes "d \<noteq> ''timestamp''" and "map_of yd d = Some (JObj fs)" and "\<not> has_total (JObj fs)"
  shows "districts_loop u (d # ds) (k, yd) =
           districts_loop u ds (k + 3, AList.update d (JObj (populated u d k fs)) yd)"
proof -
  from assms(3) have "py_in ''total_emission'' (JObj fs) = Inr False"
    by (simp add: has_total_def)
  then show ?thesis
    using assms(1,2)
    by (simp add: populated_def Let_def case_prod_beta get_random_emission_snd
        del: py_in.simps)
qed

lemma districts_loop_fail:
  assumes "d \<noteq> ''timestamp''" and "\<forall>x. map_of yd d = Some x \<longrightarrow> \<not> passes x"
  shows "\<exists>e. districts_loop u (d # ds) (k, yd) = Inl e"
proof (cases "map_of yd d")
  case None
  with assms(1) show ?thesis by simp
next
  case (Some x)
  with assms(2) have np: "\<not> passes x" by simp
  show ?thesis
  proof (cases "py_in ''total_emission'' x")
    case (Inl e)
    with assms(1) Some show ?thesis by simp
  next
    case (Inr b)
    with np have b: "\<not> b" by (auto simp: passes_def has_total_def)
    from np have "case x of JObj fs \<Rightarrow> False | _ \<Rightarrow> True"
      by (cases x) (simp_all add: passes_def)
    with assms(1) Some Inr b show ?thesis
      by (cases x) (simp_all add: Let_def split: prod.splits del: py_in.simps)
  qed
qed

lemma districts_loop_Cons_cases:
  assumes "districts_loop u (d # ds) (k, yd) = Inr st"
  obtains (timestamp) "d = ''timestamp''" "districts_loop u ds (k, yd) = Inr st"
  | (skip) x where "d \<noteq> ''timestamp''" "map_of yd d = Some x" "has_total x"
      "districts_loop u ds (k, yd) = Inr st"
  | (fill) fs where "d \<noteq> ''timestamp''" "map_of yd d = Some (JObj fs)"
      "\<not> has_total (JObj fs)"
      "districts_loop u ds (k + 3, AList.update d (JObj (populated u d k fs)) yd) = Inr st"
proof (cases "d = ''timestamp''")
  case True
  with assms timestamp show ?thesis by simp
next
  case False
  show ?thesis
  proof (cases "\<exists>x. map_of yd d = Some x \<and> passes x")
    case no: False
    then have nf: "\<forall>x. map_of yd d = Some x \<longrightarrow> \<not> passes x" by simp
    from districts_loop_fail[OF False nf, where u = u and ds = ds and k = k] obtain e where
      "districts_loop u (d # ds) (k, yd) = Inl e" by (elim exE)
    with assms show ?thesis by simp
  next
    case True
    then obtain x where x: "map_of yd d = Some x" "passes x" by (elim exE conjE)
    show ?thesis
    proof (cases "has_total x")
      case True
      from districts_loop_skip[OF False x(1) True] assms
      have "districts_loop u ds (k, yd) = Inr st" by simp
      with False x(1) True show ?thesis by (rule skip)
    next
      case nt: False
      with x(2) obtain fs where fs: "x = JObj fs"
        by (cases x) (simp_all add: passes_def)
      from x(1) nt have 1: "map_of yd d = Some (JObj fs)" and 2: "\<not> has_total (JObj fs)"
        unfolding fs by simp_all
      from districts_loop_fill[OF False 1 2] assms
      have "districts_loop u ds (k + 3, AList.update d (JObj (populated u d k fs)) yd) = Inr st"
        by simp
      with False 1 2 show ?thesis by (rule fill)
    qed
  qed
qed

lemma filled_on_Nil: "filled_on [] yd"
  by (simp add: filled_on_def)

lemma filled_on_Cons:
  "filled_on (d # ds) yd \<longleftrightarrow>
     (d \<noteq> ''timestamp'' \<longrightarrow> (\<exists>x. map_of yd d = Some x \<and> has_total x)) \<and> filled_on ds yd"
  by (simp add: filled_on_def)

lemma pass_on_Nil: "pass_on [] yd"
  by (simp add: pass_on_def)

lemma pass_on_Cons:
  "pass_on (d # ds) yd \<longleftrightarrow>
     (d \<noteq> ''timestamp'' \<longrightarrow> (\<exists>x. map_of yd d = Some x \<and> passes x)) \<and> pass_on ds yd"
  by (simp add: pass_on_def)

lemma districts_loop_fills:
  "districts_loop u ds (k, yd) = Inr (k', yd') \<Longrightarrow> fills u yd yd'"
proof (induction ds arbitrary: k yd)
  case Nil
  then show ?case by (simp add: fills_refl)
next
  case (Cons d ds)
  from Cons.prems show ?case
  proof (cases rule: districts_loop_Cons_cases)
    case timestamp
    then show ?thesis by (simp add: Cons.IH)
  next
    case (skip x)
    then show ?thesis by (simp add: Cons.IH)
  next
    case (fill fs)
    from fills_update[OF fill(2,3,1)] Cons.IH[OF fill(4)] show ?thesis
      by (rule fills_trans)
  qed
qed

lemma districts_loop_populates:
  assumes "districts_loop u ds (k, yd) = Inr (k', yd')" and "d \<in> set ds"
    and "d \<noteq> ''timestamp''" and "map_of yd d = Some (JObj fs)" and "\<not> has_total (JObj fs)"
  shows "\<exists>j. map_of yd' d = Some (JObj (populated u d j fs))"
  using assms(1,2,4)
proof (induction ds arbitrary: k yd)
  case Nil
  then show ?case by simp
next
  case (Cons d0 ds)
  from Cons.prems(1) show ?case
  proof (cases rule: districts_loop_Cons_cases)
    case timestamp
    with assms(3) Cons.prems(2) have "d \<in> set ds" by auto
    from Cons.IH[OF timestamp(2) this Cons.prems(3)] show ?thesis .
  next
    case (skip x)
    with assms(5) Cons.prems(3) have "d \<noteq> d0" by auto
    with Cons.prems(2) have "d \<in> set ds" by simp
    from Cons.IH[OF skip(4) this Cons.prems(3)] show ?thesis .
  next
    case (fill fs0)
    show ?thesis
    proof (cases "d = d0")
      case True
      with fill(2) Cons.prems(3) have fs0: "fs0 = fs" by simp
      have "map_of (AList.update d0 (JObj (populated u d0 k fs0)) yd) d
              = Some (JObj (populated u d k fs))"
        unfolding True fs0 by (simp add: update_conv')
      from fills_keeps[OF districts_loop_fills[OF fill(4)] this] has_total_populated
      have "map_of yd' d = Some (JObj (populated u d k fs))" by simp
      then show ?thesis by (rule exI)
    next
      case False
      with Cons.prems(2) have mem: "d \<in> set ds" by simp
      from False Cons.prems(3)
      have "map_of (AList.update d0 (JObj (populated u d0 k fs0)) yd) d = Some (JObj fs)"
        by (simp add: update_conv')
      from Cons.IH[OF fill(4) mem this] show ?thesis .
    qed
  qed
qed

lemma districts_loop_complete:
  "districts_loop u ds (k, yd) = Inr (k', yd') \<Longrightarrow> filled_on ds yd'"
proof (induction ds arbitrary: k yd)
  case Nil
  show ?case by (rule filled_on_Nil)
next
  case (Cons d ds)
  from Cons.prems show ?case
  proof (cases rule: districts_loop_Cons_cases)
    case timestamp
    from Cons.IH[OF timestamp(2)] timestamp(1) show ?thesis
      by (simp add: filled_on_Cons)
  next
    case (skip x)
    from fills_keeps[OF districts_loop_fills[OF skip(4)] skip(2)] skip(3)
    have "map_of yd' d = Some x" by simp
    with skip(3) Cons.IH[OF skip(4)] show ?thesis
      by (simp add: filled_on_Cons)
  next
    case (fill fs)
    have "map_of (AList.update d (JObj (populated u d k fs)) yd) d
            = Some (JObj (populated u d k fs))"
      by (simp add: update_conv')
    from fills_keeps[OF districts_loop_fills[OF fill(4)] this] has_total_populated
    have "map_of yd' d = Some (JObj (populated u d k fs))" by simp
    with has_total_populated Cons.IH[OF fill(4)] show ?thesis
      by (simp add: filled_on_Cons)
  qed
qed

lemma districts_loop_noop:
  "filled_on ds yd \<Longrightarrow> districts_loop u ds (k, yd) = Inr (k, yd)"
proof (induction ds)
  case Nil
  show ?case by simp
next
  case (Cons d ds)
  from Cons.prems have rest: "filled_on ds yd" by (simp add: filled_on_Cons)
  show ?case
  proof (cases "d = ''timestamp''")
    case True
    with Cons.IH[OF rest] show ?thesis by (simp only: districts_loop_timestamp)
  next
    case False
    with Cons.prems obtain x where "map_of yd d = Some x" "has_total x"
      by (auto simp: filled_on_Cons)
    from districts_loop_skip[OF False this] Cons.IH[OF rest] show ?thesis by simp
  qed
qed

lemma pass_on_update:
  assumes "map_of yd d = Some (JObj fs)"
  shows "pass_on ds (AList.update d (JObj fs') yd) \<longleftrightarrow> pass_on ds yd"
proof -
  have "(\<exists>x. map_of (AList.update d (JObj fs') yd) d' = Some x \<and> passes x)
          \<longleftrightarrow> (\<exists>x. map_of yd d' = Some x \<and> passes x)" for d'
    using assms by (cases "d' = d") (simp_all add: update_conv' passes_JObj)
  then show ?thesis by (simp add: pass_on_def)
qed

lemma districts_loop_success_iff:
  "(\<exists>st. districts_loop u ds (k, yd) = Inr st) \<longleftrightarrow> pass_on ds yd"
proof (induction ds arbitrary: k yd)
  case Nil
  show ?case by (simp add: pass_on_Nil)
next
  case (Cons d ds)
  show ?case
  proof (cases "d = ''timestamp''")
    case True
    then show ?thesis
      by (simp only: districts_loop_timestamp Cons.IH) (simp add: pass_on_Cons)
  next
    case False
    show ?thesis
    proof (cases "\<exists>x. map_of yd d = Some x \<and> passes x")
      case no: False
      then have nf: "\<forall>x. map_of yd d = Some x \<longrightarrow> \<not> passes x" by simp
      from districts_loop_fail[OF False nf, where u = u and ds = ds and k = k] obtain e where
        "districts_loop u (d # ds) (k, yd) = Inl e" by (elim exE)
      then have lhs: "\<not> (\<exists>st. districts_loop u (d # ds) (k, yd) = Inr st)"
        by (simp del: districts_loop.simps)
      from no False have "\<not> pass_on (d # ds) yd" by (simp add: pass_on_Cons)
      with lhs show ?thesis by (simp del: districts_loop.simps)
    next
      case True
      then obtain x where x: "map_of yd d = Some x" "passes x" by (elim exE conjE)
      show ?thesis
      proof (cases "has_total x")
        case ht: True
        have eq: "districts_loop u (d # ds) (k, yd) = districts_loop u ds (k, yd)"
          by (rule districts_loop_skip[OF False x(1) ht])
        from x have p: "pass_on (d # ds) yd \<longleftrightarrow> pass_on ds yd"
          by (simp add: pass_on_Cons)
        show ?thesis unfolding eq p by (rule Cons.IH)
      next
        case nt: False
        with x(2) obtain fs where fs: "x = JObj fs"
          by (cases x) (simp_all add: passes_def)
        from x(1) nt have 1: "map_of yd d = Some (JObj fs)" and 2: "\<not> has_total (JObj fs)"
          unfolding fs by simp_all
        have eq: "districts_loop u (d # ds) (k, yd) =
            districts_loop u ds (k + 3, AList.update d (JObj (populated u d k fs)) yd)"
          by (rule districts_loop_fill[OF False 1 2])
        from x have p: "pass_on (d # ds) yd \<longleftrightarrow>
            pass_on ds (AList.update d (JObj (populated u d k fs)) yd)"
          by (simp add: pass_on_Cons pass_on_update[OF 1])
        show ?thesis unfolding eq p by (rule Cons.IH)
      qed
    qed
  qed
qed

lemma filled_onD:
  "filled_on ds yd \<Longrightarrow> d \<in> set ds \<Longrightarrow> d \<noteq> ''timestamp'' \<Longrightarrow>
     \<exists>x. map_of yd d = Some x \<and> has_total x"
  by (simp add: filled_on_def)

lemma pass_onD:
  "pass_on ds yd \<Longrightarrow> d \<in> set ds \<Longrightarrow> d \<noteq> ''timestamp'' \<Longrightarrow>
     \<exists>x. map_of yd d = Some x \<and> passes x"
  by (simp add: pass_on_def)

lemma complete_fills:
  assumes "fills u a b" and "year_complete a"
  shows "year_complete b"
  unfolding year_complete_def filled_on_def
proof (intro ballI impI)
  fix d assume d: "d \<in> set (map fst b)" and nt: "d \<noteq> ''timestamp''"
  from d assms(1) have mem: "d \<in> set (map fst a)" by (simp add: fills_keys)
  from assms(2) have "filled_on (map fst a) a" by (simp add: year_complete_def)
  from filled_onD[OF this mem nt] obtain x where x: "map_of a d = Some x" "has_total x"
    by (elim exE conjE)
  from fills_keeps[OF assms(1) x(1)] x(2) have "map_of b d = Some x" by simp
  with x(2) show "\<exists>x. map_of b d = Some x \<and> has_total x" by simp
qed

lemma all_pass_fills:
  assumes "fills u a b" and "all_pass a"
  shows "all_pass b"
  unfolding all_pass_def pass_on_def
proof (intro ballI impI)
  fix d assume d: "d \<in> set (map fst b)" and nt: "d \<noteq> ''timestamp''"
  from d assms(1) have mem: "d \<in> set (map fst a)" by (simp add: fills_keys)
  from assms(2) have "pass_on (map fst a) a" by (simp add: all_pass_def)
  from pass_onD[OF this mem nt] obtain x where x: "map_of a d = Some x" "passes x"
    by (elim exE conjE)
  from assms(1) show "\<exists>x. map_of b d = Some x \<and> passes x"
  proof (cases rule: fills_cases[where d = d])
    case same
    with x show ?thesis by simp
  next
    case (filled fs j)
    then show ?thesis by (simp add: passes_JObj)
  qed
qed

lemma fills_store_refl: "fills_store u data data"
  by (simp add: fills_store_def option.rel_refl fills_refl)

lemma fills_store_keys: "fills_store u data data' \<Longrightarrow> map fst data' = map fst data"
  by (simp add: fills_store_def)

lemma fills_store_lookup:
  assumes "fills_store u data data'" and "map_of data y = Some yd"
  obtains yd' where "map_of data' y = Some yd'" "fills u yd yd'"
proof -
  from assms(1) have "rel_option (fills u) (map_of data y) (map_of data' y)"
    by (simp add: fills_store_def)
  with assms(2) show ?thesis
    by (cases "map_of data' y") (simp_all add: that)
qed

lemma fills_store_trans:
  assumes ab: "fills_store u a b" and bc: "fills_store u b c"
  shows "fills_store u a c"
  unfolding fills_store_def
proof (intro conjI allI)
  from ab bc show "map fst c = map fst a" by (simp add: fills_store_def)
next
  fix y
  from ab have 1: "rel_option (fills u) (map_of a y) (map_of b y)"
    by (simp add: fills_store_def)
  from bc have 2: "rel_option (fills u) (map_of b y) (map_of c y)"
    by (simp add: fills_store_def)
  show "rel_option (fills u) (map_of a y) (map_of c y)"
  proof (cases "map_of a y")
    case None
    with 1 have "map_of b y = None" by (cases "map_of b y") simp_all
    with 2 have "map_of c y = None" by (cases "map_of c y") simp_all
    with None show ?thesis by simp
  next
    case (Some ya)
    with 1 obtain yb where yb: "map_of b y = Some yb" "fills u ya yb"
      by (cases "map_of b y") simp_all
    with 2 obtain yc where yc: "map_of c y = Some yc" "fills u yb yc"
      by (cases "map_of c y") simp_all
    from fills_trans[OF yb(2) yc(2)] Some yc(1) show ?thesis by simp
  qed
qed

lemma fills_store_update:
  assumes "map_of data y = Some yd" and "fills u yd yd'"
  shows "fills_store u data (AList.update y yd' data)"
  unfolding fills_store_def
proof (intro conjI allI)
  from assms(1) have "y \<in> fst ` set data"
    by (metis domI dom_map_of_conv_image_fst)
  then show "map fst (AList.update y yd' data) = map fst data"
    by (simp add: update_keys)
next
  fix y'
  show "rel_option (fills u) (map_of data y') (map_of (AList.update y yd' data) y')"
    using assms by (cases "y' = y") (simp_all add: update_conv' option.rel_refl fills_refl)
qed

lemma years_loop_ok:
  assumes "map_of data y = Some yd" and "districts_loop u (map fst yd) (k, yd) = Inr (k', yd')"
  shows "years_loop u (y # ys) (k, data) = years_loop u ys (k', AList.update y yd' data)"
  using assms by simp

lemma years_loop_no_year:
  assumes "map_of data y = None"
  shows "years_loop u (y # ys) (k, data) = Inl KeyError"
  using assms by simp

lemma years_loop_raise:
  assumes "map_of data y = Some yd" and "districts_loop u (map fst yd) (k, yd) = Inl e"
  shows "years_loop u (y # ys) (k, data) = Inl e"
  using assms by simp

lemma years_loop_Cons_cases:
  assumes "years_loop u (y # ys) (k, data) = Inr st"
  obtains yd k' yd' where "map_of data y = Some yd"
    "districts_loop u (map fst yd) (k, yd) = Inr (k', yd')"
    "years_loop u ys (k', AList.update y yd' data) = Inr st"
proof (cases "map_of data y")
  case None
  from years_loop_no_year[OF None] assms show ?thesis by simp
next
  case (Some yd)
  show ?thesis
  proof (cases "districts_loop u (map fst yd) (k, yd)")
    case (Inl e)
    from years_loop_raise[OF Some Inl] assms show ?thesis by simp
  next
    case (Inr st')
    obtain k' yd' where st': "st' = (k', yd')" by (cases st')
    from Inr have 1: "districts_loop u (map fst yd) (k, yd) = Inr (k', yd')"
      unfolding st' .
    from years_loop_ok[OF Some 1] assms
    have "years_loop u ys (k', AList.update y yd' data) = Inr st" by simp
    with Some 1 show ?thesis by (rule that)
  qed
qed

lemma years_loop_fills:
  "years_loop u ys (k, data) = Inr (k', data') \<Longrightarrow> fills_store u data data'"
proof (induction ys arbitrary: k data)
  case Nil
  then show ?case by (simp add: fills_store_refl)
next
  case (Cons y ys)
  from Cons.prems show ?case
  proof (cases rule: years_loop_Cons_cases)
    case (1 yd k1 yd1)
    from fills_store_update[OF 1(1) districts_loop_fills[OF 1(2)]] Cons.IH[OF 1(3)]
    show ?thesis by (rule fills_store_trans)
  qed
qed

lemma map_of_in_keys: "map_of al k = Some v \<Longrightarrow> k \<in> set (map fst al)"
  by (metis domI dom_map_of_conv_image_fst set_map)

lemma years_loop_populates:
  assumes "years_loop u ys (k, data) = Inr (k', data')" and "y \<in> set ys"
    and "map_of data y = Some yd" and "d \<noteq> ''timestamp''"
    and "map_of yd d = Some (JObj fs)" and "\<not> has_total (JObj fs)"
  shows "\<exists>yd' j. map_of data' y = Some yd' \<and> map_of yd' d = Some (JObj (populated u d j fs))"
  using assms(1,2,3)
proof (induction ys arbitrary: k data)
  case Nil
  then show ?case by simp
next
  case (Cons y0 ys)
  from Cons.prems(1) show ?case
  proof (cases rule: years_loop_Cons_cases)
    case (1 yd0 k1 yd1)
    show ?thesis
    proof (cases "y = y0")
      case True
      with 1(1) Cons.prems(3) have yd0: "yd0 = yd" by simp
      from assms(5) have "d \<in> set (map fst yd)" by (rule map_of_in_keys)
      from districts_loop_populates[OF 1(2)[unfolded yd0] this assms(4,5,6)]
      obtain j where j: "map_of yd1 d = Some (JObj (populated u d j fs))" by (elim exE)
      have "map_of (AList.update y0 yd1 data) y = Some yd1"
        unfolding True by (simp add: update_conv')
      with years_loop_fills[OF 1(3)] obtain yd' where
        yd': "map_of data' y = Some yd'" "fills u yd1 yd'"
        by (rule fills_store_lookup)
      from fills_keeps[OF yd'(2) j] has_total_populated
      have "map_of yd' d = Some (JObj (populated u d j fs))" by simp
      with yd'(1) show ?thesis by (intro exI conjI)
    next
      case False
      with Cons.prems(2) have mem: "y \<in> set ys" by simp
      from False Cons.prems(3) have "map_of (AList.update y0 yd1 data) y = Some yd"
        by (simp add: update_conv')
      from Cons.IH[OF 1(3) mem this] show ?thesis .
    qed
  qed
qed

lemma years_loop_complete:
  assumes "years_loop u ys (k, data) = Inr (k', data')" and "y \<in> set ys"
  shows "\<exists>yd'. map_of data' y = Some yd' \<and> year_complete yd'"
  using assms
proof (induction ys arbitrary: k data)
  case Nil
  then show ?case by simp
next
  case (Cons y0 ys)
  from Cons.prems(1) show ?case
  proof (cases rule: years_loop_Cons_cases)
    case (1 yd0 k1 yd1)
    show ?thesis
    proof (cases "y \<in> set ys")
      case True
      from Cons.IH[OF 1(3) True] show ?thesis .
    next
      case False
      with Cons.prems(2) have y: "y = y0" by simp
      from districts_loop_complete[OF 1(2)] fills_keys[OF districts_loop_fills[OF 1(2)]]
      have c1: "year_complete yd1" by (simp add: year_complete_def)
      have "map_of (AList.update y0 yd1 data) y = Some yd1"
        unfolding y by (simp add: update_conv')
      with years_loop_fills[OF 1(3)] obtain yd' where
        yd': "map_of data' y = Some yd'" "fills u yd1 yd'"
        by (rule fills_store_lookup)
      from complete_fills[OF yd'(2) c1] yd'(1) show ?thesis by simp
    qed
  qed
qed

lemma years_loop_noop:
  assumes "\<forall>y \<in> set ys. \<exists>yd. map_of data y = Some yd \<and> year_complete yd"
  shows "years_loop u ys (k, data) = Inr (k, data)"
  using assms
proof (induction ys)
  case Nil
  show ?case by simp
next
  case (Cons y ys)
  from Cons.prems obtain yd where yd: "map_of data y = Some yd" "year_complete yd"
    by auto
  from yd(2) have "districts_loop u (map fst yd) (k, yd) = Inr (k, yd)"
    unfolding year_complete_def by (rule districts_loop_noop)
  from years_loop_ok[OF yd(1) this] have
    "years_loop u (y # ys) (k, data) = years_loop u ys (k, AList.update y yd data)" .
  also from yd(1) have "AList.update y yd data = data" by (rule update_triv)
  also from Cons.prems have "years_loop u ys (k, data) = Inr (k, data)"
    by (intro Cons.IH) simp
  finally show ?case .
qed

lemma years_pass_update:
  assumes "map_of data y0 = Some yd0" and "all_pass yd0" and "all_pass yd1"
  shows "(\<forall>y \<in> set ys. \<exists>yd. map_of (AList.update y0 yd1 data) y = Some yd \<and> all_pass yd)
           \<longleftrightarrow> (\<forall>y \<in> set ys. \<exists>yd. map_of data y = Some yd \<and> all_pass yd)"
proof -
  have "(\<exists>yd. map_of (AList.update y0 yd1 data) y = Some yd \<and> all_pass yd)
          \<longleftrightarrow> (\<exists>yd. map_of data y = Some yd \<and> all_pass yd)" for y
    using assms by (cases "y = y0") (simp_all add: update_conv')
  then show ?thesis by simp
qed

lemma years_loop_success_iff:
  "(\<exists>st. years_loop u ys (k, data) = Inr st)
     \<longleftrightarrow> (\<forall>y \<in> set ys. \<exists>yd. map_of data y = Some yd \<and> all_pass yd)"
proof (induction ys arbitrary: k data)
  case Nil
  show ?case by simp
next
  case (Cons y ys)
  show ?case
  proof (cases "map_of data y")
    case None
    from years_loop_no_year[OF None] have
      "\<not> (\<exists>st. years_loop u (y # ys) (k, data) = Inr st)"
      by (simp del: years_loop.simps)
    with None show ?thesis by (simp del: years_loop.simps)
  next
    case (Some yd)
    show ?thesis
    proof (cases "all_pass yd")
      case False
      then have "\<not> pass_on (map fst yd) yd" by (simp add: all_pass_def)
      then have "\<not> (\<exists>st. districts_loop u (map fst yd) (k, yd) = Inr st)"
        unfolding districts_loop_success_iff .
      then obtain e where "districts_loop u (map fst yd) (k, yd) = Inl e"
        by (cases "districts_loop u (map fst yd) (k, yd)") auto
      from years_loop_raise[OF Some this] have
        "\<not> (\<exists>st. years_loop u (y # ys) (k, data) = Inr st)"
        by (simp del: years_loop.simps)
      with Some False show ?thesis by (simp del: years_loop.simps)
    next
      case True
      then have "pass_on (map fst yd) yd" by (simp add: all_pass_def)
      then have "\<exists>st. districts_loop u (map fst yd) (k, yd) = Inr st"
        unfolding districts_loop_success_iff .
      then obtain k1 yd1 where 1: "districts_loop u (map fst yd) (k, yd) = Inr (k1, yd1)"
        by auto
      from all_pass_fills[OF districts_loop_fills[OF 1] True] have p1: "all_pass yd1" .
      have eq: "years_loop u (y # ys) (k, data) = years_loop u ys (k1, AList.update y yd1 data)"
        by (rule years_loop_ok[OF Some 1])
      have "(\<exists>st. years_loop u (y # ys) (k, data) = Inr st)
              \<longleftrightarrow> (\<forall>y' \<in> set ys. \<exists>yd. map_of data y' = Some yd \<and> all_pass yd)"
        unfolding eq Cons.IH by (rule years_pass_update[OF Some True p1])
      with Some True show ?thesis by (simp del: years_loop.simps)
    qed
  qed
qed

section \<open>The generated figures\<close>

lemma uniform_bounds:
  assumes "a \<le> b" and "0 \<le> x" and "x \<le> 1"
  shows "a \<le> uniform a b x \<and> uniform a b x \<le> b"
proof -
  from assms have "0 \<le> (b - a) * x" by simp
  moreover from assms have "(b - a) * x \<le> (b - a) * 1"
    by (intro mult_left_mono) simp_all
  ultimately show ?thesis by (simp add: uniform_def)
qed

lemma rounded_uniform_bounds:
  assumes "a \<le> b" and "0 \<le> x" and "x \<le> 1"
  shows "of_int a \<le> py_round2 (uniform (of_int a) (of_int b) x) \<and>
         py_round2 (uniform (of_int a) (of_int b) x) \<le> of_int b"
proof -
  from assms(1) have "(of_int a :: rat) \<le> of_int b" by simp
  from uniform_bounds[OF this assms(2,3)] show ?thesis
    by (intro py_round2_bounds) simp_all
qed

lemma transport_in_range:
  assumes "0 \<le> x" and "x \<le> 1"
  shows "rmin (transport (EMISSION_CONFIG c))
           \<le> py_round2 (uniform (rmin (transport (EMISSION_CONFIG c)))
                          (rmax (transport (EMISSION_CONFIG c))) x) \<and>
         py_round2 (uniform (rmin (transport (EMISSION_CONFIG c)))
                          (rmax (transport (EMISSION_CONFIG c))) x)
           \<le> rmax (transport (EMISSION_CONFIG c))"
  using rounded_uniform_bounds[of 1500 3000 x] rounded_uniform_bounds[of 200 800 x]
    rounded_uniform_bounds[of 800 1800 x] assms
  by (cases c) simp_all

lemma industrial_in_range:
  assumes "0 \<le> x" and "x \<le> 1"
  shows "rmin (industrial (EMISSION_CONFIG c))
           \<le> py_round2 (uniform (rmin (industrial (EMISSION_CONFIG c)))
                          (rmax (industrial (EMISSION_CONFIG c))) x) \<and>
         py_round2 (uniform (rmin (industrial (EMISSION_CONFIG c)))
                          (rmax (industrial (EMISSION_CONFIG c))) x)
           \<le> rmax (industrial (EMISSION_CONFIG c))"
  using rounded_uniform_bounds[of 2000 5000 x] rounded_uniform_bounds[of 100 1000 x]
    rounded_uniform_bounds[of 500 2000 x] assms
  by (cases c) simp_all

lemma residential_in_range:
  assumes "0 \<le> x" and "x \<le> 1"
  shows "rmin (residential (EMISSION_CONFIG c))
           \<le> py_round2 (uniform (rmin (residential (EMISSION_CONFIG c)))
                          (rmax (residential (EMISSION_CONFIG c))) x) \<and>
         py_round2 (uniform (rmin (residential (EMISSION_CONFIG c)))
                          (rmax (residential (EMISSION_CONFIG c))) x)
           \<le> rmax (residential (EMISSION_CONFIG c))"
  using rounded_uniform_bounds[of 800 1500 x] rounded_uniform_bounds[of 1000 2500 x]
    rounded_uniform_bounds[of 900 1800 x] assms
  by (cases c) simp_all

lemma populated_lookup:
  fixes u d j fs
  defines "cfg \<equiv> EMISSION_CONFIG (district_type_of d)"
  defines "t \<equiv> py_round2 (uniform (rmin (transport cfg)) (rmax (transport cfg)) (u j))"
  defines "i \<equiv> py_round2 (uniform (rmin (industrial cfg)) (rmax (industrial cfg)) (u (j + 1)))"
  defines "r \<equiv> py_round2 (uniform (rmin (residential cfg)) (rmax (residential cfg)) (u (j + 2)))"
  shows "map_of (populated u d j fs) ''transport_emission'' = Some (JNum t)"
    and "map_of (populated u d j fs) ''industrial_emission'' = Some (JNum i)"
    and "map_of (populated u d j fs) ''residential_emission'' = Some (JNum r)"
    and "map_of (populated u d j fs) ''total_emission'' = Some (JNum (py_round2 (t + i + r)))"
  unfolding populated_def get_random_emission_def dict_update_def Let_def cfg_def t_def i_def r_def
  by (simp_all add: update_conv' add.assoc)

section \<open>The emission generator\<close>

lemma load_emission_data_Doc: "content w = Doc data \<Longrightarrow> load_emission_data w = data"
  by (simp add: load_emission_data_def read_json_def)

lemma add_emission_cases:
  obtains (raised) e where
      "years_loop u (map fst (load_emission_data w)) (0, load_emission_data w) = Inl e"
      "add_emission_data_to_json u w = (False, w)"
  | (saved) k data' where
      "years_loop u (map fst (load_emission_data w)) (0, load_emission_data w) = Inr (k, data')"
      "writable w"
      "add_emission_data_to_json u w = (True, w\<lparr>content := Doc data'\<rparr>)"
  | (unsaved) k data' where
      "years_loop u (map fst (load_emission_data w)) (0, load_emission_data w) = Inr (k, data')"
      "\<not> writable w"
      "add_emission_data_to_json u w = (False, w)"
proof (cases "years_loop u (map fst (load_emission_data w)) (0, load_emission_data w)")
  case (Inl e)
  then have "add_emission_data_to_json u w = (False, w)"
    by (simp add: add_emission_data_to_json_def)
  with Inl show ?thesis by (rule raised)
next
  case (Inr st)
  obtain k data' where st: "st = (k, data')" by (cases st)
  show ?thesis
  proof (cases "writable w")
    case True
    with Inr st have "add_emission_data_to_json u w = (True, w\<lparr>content := Doc data'\<rparr>)"
      by (simp add: add_emission_data_to_json_def save_emission_data_def)
    with Inr[unfolded st] True show ?thesis by (rule saved)
  next
    case False
    with Inr st have "add_emission_data_to_json u w = (False, w)"
      by (simp add: add_emission_data_to_json_def save_emission_data_def)
    with Inr[unfolded st] False show ?thesis by (rule unsaved)
  qed
qed

lemma add_emission_fills:
  assumes "content w = Doc data"
  obtains data' where "content (snd (add_emission_data_to_json u w)) = Doc data'"
    "fills_store u data data'"
proof (cases rule: add_emission_cases[of u w])
  case (raised e)
  with assms fills_store_refl[of u data] show ?thesis by (intro that[of data]) simp_all
next
  case (saved k data')
  from years_loop_fills[OF saved(1)] assms have "fills_store u data data'"
    by (simp add: load_emission_data_Doc)
  with saved(3) show ?thesis by (intro that[of data']) simp_all
next
  case (unsaved k data')
  with assms fills_store_refl[of u data] show ?thesis by (intro that[of data]) simp_all
qed

lemma add_emission_twice:
  "snd (add_emission_data_to_json u' (snd (add_emission_data_to_json u w)))
     = snd (add_emission_data_to_json u w)"
proof (cases rule: add_emission_cases[of u w])
  case (raised e)
  have "snd (add_emission_data_to_json u' w) = w"
  proof (cases rule: add_emission_cases[of u' w])
    case (saved k data')
    then have "\<exists>st. years_loop u' (map fst (load_emission_data w)) (0, load_emission_data w)
                 = Inr st" by simp
    then have "\<exists>st. years_loop u (map fst (load_emission_data w)) (0, load_emission_data w)
                 = Inr st"
      unfolding years_loop_success_iff .
    with raised(1) show ?thesis by simp
  qed simp_all
  with raised(2) show ?thesis by simp
next
  case (unsaved k data')
  have "snd (add_emission_data_to_json u' w) = w"
  proof (cases rule: add_emission_cases[of u' w])
    case (saved k data')
    with unsaved(2) show ?thesis by simp
  qed simp_all
  with unsaved(3) show ?thesis by simp
next
  case (saved k data')
  let ?w1 = "w\<lparr>content := Doc data'\<rparr>"
  have l1: "load_emission_data ?w1 = data'"
    by (simp add: load_emission_data_Doc)
  from years_loop_fills[OF saved(1)] have keys: "map fst data' = map fst (load_emission_data w)"
    by (rule fills_store_keys)
  have "\<forall>y \<in> set (map fst data'). \<exists>yd. map_of data' y = Some yd \<and> year_complete yd"
    unfolding keys using years_loop_complete[OF saved(1)] by simp
  then have "years_loop u' (map fst data') (0, data') = Inr (0, data')"
    by (rule years_loop_noop)
  with saved(2) have "add_emission_data_to_json u' ?w1 = (True, ?w1)"
    by (simp add: add_emission_data_to_json_def l1 save_emission_data_def)
  with saved(3) show ?thesis by simp
qed

text \<open>
  Claim C4. Whatever the random values of the two runs, running
  \<open>add_emission_data_to_json\<close> a second time leaves the world, and so every
  \<open>total_emission\<close>, as the first run left it; and a run leaves identical every stored
  value in which \<open>total_emission\<close> is found.
\<close>

theorem generation_idempotent:
  "snd (add_emission_data_to_json u' (snd (add_emission_data_to_json u w)))
     = snd (add_emission_data_to_json u w) \<and>
   (\<forall>data y yd d x.
      content w = Doc data \<longrightarrow> map_of data y = Some yd \<longrightarrow> map_of yd d = Some x \<longrightarrow>
      py_in ''total_emission'' x = Inr True \<longrightarrow>
      (\<exists>data' yd'. content (snd (add_emission_data_to_json u w)) = Doc data' \<and>
         map_of data' y = Some yd' \<and> map_of yd' d = Some x))"
proof (intro conjI allI impI)
  show "snd (add_emission_data_to_json u' (snd (add_emission_data_to_json u w)))
          = snd (add_emission_data_to_json u w)"
    by (rule add_emission_twice)
next
  fix data y yd d x
  assume w: "content w = Doc data" and y: "map_of data y = Some yd"
    and d: "map_of yd d = Some x" and x: "py_in ''total_emission'' x = Inr True"
  from w obtain data' where data': "content (snd (add_emission_data_to_json u w)) = Doc data'"
    "fills_store u data data'"
    by (rule add_emission_fills)
  from data'(2) y obtain yd' where yd': "map_of data' y = Some yd'" "fills u yd yd'"
    by (rule fills_store_lookup)
  from x have "has_total x" by (simp add: has_total_def)
  with fills_keeps[OF yd'(2) d] have "map_of yd' d = Some x" by simp
  with data'(1) yd'(1)
  show "\<exists>data' yd'. content (snd (add_emission_data_to_json u w)) = Doc data' \<and>
         map_of data' y = Some yd' \<and> map_of yd' d = Some x"
    by (intro exI conjI)
qed

theorem generation_idempotent_witness:
  "snd (add_emission_data_to_json (\<lambda>n. 1 / 2)
          (snd (add_emission_data_to_json (\<lambda>n. 0)
             \<lparr>content = Doc [(''2025'', [(''Kolar'', JObj [(''total_emission'', JNum 5)]),
                                         (''Hosakote'', JObj [])])],
              writable = True\<rparr>)))
     = snd (add_emission_data_to_json (\<lambda>n. 0)
             \<lparr>content = Doc [(''2025'', [(''Kolar'', JObj [(''total_emission'', JNum 5)]),
                                         (''Hosakote'', JObj [])])],
              writable = True\<rparr>) \<and>
   (\<exists>data' yd'.
      content (snd (add_emission_data_to_json (\<lambda>n. 0)
             \<lparr>content = Doc [(''2025'', [(''Kolar'', JObj [(''total_emission'', JNum 5)]),
                                         (''Hosakote'', JObj [])])],
              writable = True\<rparr>)) = Doc data' \<and>
      map_of data' ''2025'' = Some yd' \<and>
      map_of yd' ''Kolar'' = Some (JObj [(''total_emission'', JNum 5)]))"
proof -
  let ?yd = "[(''Kolar'', JObj [(''total_emission'', JNum 5)]), (''Hosakote'', JObj [])]"
  let ?data = "[(''2025'', ?yd)]"
  let ?w = "\<lparr>content = Doc ?data, writable = True\<rparr>"
  note both = generation_idempotent[of "\<lambda>n. 1 / 2" "\<lambda>n. 0" ?w]
  have h1: "content ?w = Doc ?data" by simp
  have h2: "map_of ?data ''2025'' = Some ?yd" by simp
  have h3: "map_of ?yd ''Kolar'' = Some (JObj [(''total_emission'', JNum 5)])" by simp
  have h4: "py_in ''total_emission'' (JObj [(''total_emission'', JNum 5)]) = Inr True" by simp
  from both have 1: "snd (add_emission_data_to_json (\<lambda>n. 1 / 2)
          (snd (add_emission_data_to_json (\<lambda>n. 0) ?w)))
     = snd (add_emission_data_to_json (\<lambda>n. 0) ?w)"
    by (rule conjunct1)
  from both[THEN conjunct2, rule_format, OF h1 h2 h3 h4] 1 show ?thesis
    by (intro conjI)
qed

text \<open>
  Claim C6, as the code has it. \<open>add_emission_data_to_json\<close> takes no year and goes
  through every year of the document. Under every year the keys stay as they were, in
  order, and the entry \<open>timestamp\<close> and every value in which \<open>total_emission\<close> is found
  are identical afterwards: only records without \<open>total_emission\<close> change, whatever their
  year.
\<close>

theorem generator_changes_only_unfilled:
  assumes "content w = Doc data"
  shows "\<exists>data'. content (snd (add_emission_data_to_json u w)) = Doc data' \<and>
           map fst data' = map fst data \<and>
           (\<forall>y yd. map_of data y = Some yd \<longrightarrow>
              (\<exists>yd'. map_of data' y = Some yd' \<and> map fst yd' = map fst yd \<and>
                 (\<forall>d x. map_of yd d = Some x \<longrightarrow>
                    (d = ''timestamp'' \<or> py_in ''total_emission'' x = Inr True) \<longrightarrow>
                    map_of yd' d = Some x)))"
proof -
  from assms obtain data' where data': "content (snd (add_emission_data_to_json u w)) = Doc data'"
    "fills_store u data data'"
    by (rule add_emission_fills)
  have "\<exists>yd'. map_of data' y = Some yd' \<and> map fst yd' = map fst yd \<and>
          (\<forall>d x. map_of yd d = Some x \<longrightarrow>
             (d = ''timestamp'' \<or> py_in ''total_emission'' x = Inr True) \<longrightarrow>
             map_of yd' d = Some x)"
    if y: "map_of data y = Some yd" for y yd
  proof -
    from data'(2) y obtain yd' where yd': "map_of data' y = Some yd'" "fills u yd yd'"
      by (rule fills_store_lookup)
    have "map_of yd' d = Some x"
      if "map_of yd d = Some x" "d = ''timestamp'' \<or> py_in ''total_emission'' x = Inr True"
      for d x
      using fills_keeps[OF yd'(2) that(1)] that(2) by (simp add: has_total_def)
    with yd'(1) fills_keys[OF yd'(2)] show ?thesis by simp
  qed
  with data'(1) fills_store_keys[OF data'(2)] show ?thesis by simp
qed

theorem generator_changes_only_unfilled_witness:
  "\<exists>data' yd'.
     content (snd (add_emission_data_to_json (\<lambda>n. 0)
        \<lparr>content = Doc [(''2024'', [(''timestamp'', JStr ''t4''),
                                    (''Anekal'', JObj [(''total_emission'', JNum 7)])]),
                         (''2025'', [(''Kolar'', JObj [])])],
         writable = True\<rparr>)) = Doc data' \<and>
     map fst data' = [''2024'', ''2025''] \<and>
     map_of data' ''2024'' = Some yd' \<and>
     map fst yd' = [''timestamp'', ''Anekal''] \<and>
     map_of yd' ''timestamp'' = Some (JStr ''t4'') \<and>
     map_of yd' ''Anekal'' = Some (JObj [(''total_emission'', JNum 7)])"
proof -
  let ?yd = "[(''timestamp'', JStr ''t4''), (''Anekal'', JObj [(''total_emission'', JNum 7)])]"
  let ?data = "[(''2024'', ?yd), (''2025'', [(''Kolar'', JObj [])])]"
  let ?w = "\<lparr>content = Doc ?data, writable = True\<rparr>"
  have h1: "content ?w = Doc ?data" by simp
  have h2: "map_of ?data ''2024'' = Some ?yd" by simp
  from generator_changes_only_unfilled[OF h1, of "\<lambda>n. 0"] obtain data' where
    d1: "content (snd (add_emission_data_to_json (\<lambda>n. 0) ?w)) = Doc data'"
    and d2: "map fst data' = map fst ?data"
    and d3: "\<forall>y yd. map_of ?data y = Some yd \<longrightarrow>
              (\<exists>yd'. map_of data' y = Some yd' \<and> map fst yd' = map fst yd \<and>
                 (\<forall>d x. map_of yd d = Some x \<longrightarrow>
                    (d = ''timestamp'' \<or> py_in ''total_emission'' x = Inr True) \<longrightarrow>
                    map_of yd' d = Some x))"
    by (elim exE conjE)
  from d3[rule_format, OF h2] obtain yd' where
    y1: "map_of data' ''2024'' = Some yd'" and y2: "map fst yd' = map fst ?yd"
    and y3: "\<forall>d x. map_of ?yd d = Some x \<longrightarrow>
                    (d = ''timestamp'' \<or> py_in ''total_emission'' x = Inr True) \<longrightarrow>
                    map_of yd' d = Some x"
    by (elim exE conjE)
  have "map_of yd' ''timestamp'' = Some (JStr ''t4'')"
    by (rule y3[rule_format, of "''timestamp''"]) simp_all
  moreover have "map_of yd' ''Anekal'' = Some (JObj [(''total_emission'', JNum 7)])"
    by (rule y3[rule_format, of "''Anekal''"]) simp_all
  moreover from d2 have "map fst data' = [''2024'', ''2025'']" by simp
  moreover from y2 have "map fst yd' = [''timestamp'', ''Anekal'']" by simp
  ultimately show ?thesis using d1 y1 by (intro exI conjI)
qed

text \<open>
  Claim C6, as the specification states it, fails: there is no year to pass, and a run
  meant for 2025 also rewrites the record of a district under 2024.
\<close>

theorem generator_changes_only_unfilled_counterexample:
  "snd (add_emission_data_to_json (\<lambda>n. 0)
          \<lparr>content = Doc [(''2024'', [(''Anekal'', JObj [])]),
                           (''2025'', [(''Kolar'', JObj [])])],
           writable = True\<rparr>) =
     \<lparr>content = Doc [(''2024'', [(''Anekal'', JObj
                          [(''transport_emission'', JNum 1500),
                           (''industrial_emission'', JNum 2000),
                           (''residential_emission'', JNum 800),
                           (''total_emission'', JNum 4300)])]),
                      (''2025'', [(''Kolar'', JObj
                          [(''transport_emission'', JNum 800),
                           (''industrial_emission'', JNum 500),
                           (''residential_emission'', JNum 900),
                           (''total_emission'', JNum 2200)])])],
      writable = True\<rparr>"
  by (simp add: add_emission_data_to_json_def load_emission_data_def read_json_def
      save_emission_data_def get_random_emission_def district_type_of_def DISTRICT_TYPES_def
      dict_update_def uniform_def py_round2_def)

lemma py_round2_two_decimals: "\<exists>m::int. py_round2 x = of_int m / 100"
proof -
  obtain m :: int where "py_round2 x = of_int m / 100" by (rule py_round2_cases)
  then show ?thesis by (rule exI)
qed

lemma populated_fields:
  fixes u d j fs
  assumes "\<forall>n. 0 \<le> u n \<and> u n < 1"
  defines "c \<equiv> EMISSION_CONFIG (district_type_of d)"
  defines "t \<equiv> py_round2 (uniform (rmin (transport c)) (rmax (transport c)) (u j))"
  defines "i \<equiv> py_round2 (uniform (rmin (industrial c)) (rmax (industrial c)) (u (j + 1)))"
  defines "r \<equiv> py_round2 (uniform (rmin (residential c)) (rmax (residential c)) (u (j + 2)))"
  shows "map_of (populated u d j fs) ''transport_emission'' = Some (JNum t) \<and>
     (\<exists>m::int. t = of_int m / 100) \<and>
     rmin (transport (EMISSION_CONFIG (district_type_of d))) \<le> t \<and>
     t \<le> rmax (transport (EMISSION_CONFIG (district_type_of d))) \<and>
     map_of (populated u d j fs) ''industrial_emission'' = Some (JNum i) \<and>
     (\<exists>m::int. i = of_int m / 100) \<and>
     rmin (industrial (EMISSION_CONFIG (district_type_of d))) \<le> i \<and>
     i \<le> rmax (industrial (EMISSION_CONFIG (district_type_of d))) \<and>
     map_of (populated u d j fs) ''residential_emission'' = Some (JNum r) \<and>
     (\<exists>m::int. r = of_int m / 100) \<and>
     rmin (residential (EMISSION_CONFIG (district_type_of d))) \<le> r \<and>
     r \<le> rmax (residential (EMISSION_CONFIG (district_type_of d))) \<and>
     map_of (populated u d j fs) ''total_emission'' = Some (JNum (py_round2 (t + i + r)))"
proof -
  let ?c = "district_type_of d"
  have u: "0 \<le> u n" "u n \<le> 1" for n
    using assms(1)[rule_format, of n] by simp_all
  note tr = transport_in_range[where x = "u j" and c = ?c, OF u]
  note ir = industrial_in_range[where x = "u (j + 1)" and c = ?c, OF u]
  note rr = residential_in_range[where x = "u (j + 2)" and c = ?c, OF u]
  note lk = populated_lookup[of u d j fs]
  show ?thesis
    unfolding t_def i_def r_def c_def
    apply (intro conjI)
                apply (rule lk(1))
               apply (rule py_round2_two_decimals)
              apply (rule tr[THEN conjunct1])
             apply (rule tr[THEN conjunct2])
            apply (rule lk(2))
           apply (rule py_round2_two_decimals)
          apply (rule ir[THEN conjunct1])
         apply (rule ir[THEN conjunct2])
        apply (rule lk(3))
       apply (rule py_round2_two_decimals)
      apply (rule rr[THEN conjunct1])
     apply (rule rr[THEN conjunct2])
    apply (rule lk(4))
    done
qed

lemma records_all_pass:
  assumes "\<forall>d x. map_of yd d = Some x \<longrightarrow> d \<noteq> ''timestamp'' \<longrightarrow> (\<exists>fs. x = JObj fs)"
  shows "all_pass yd"
  unfolding all_pass_def pass_on_def
proof (intro ballI impI)
  fix d assume d: "d \<in> set (map fst yd)" and nt: "d \<noteq> ''timestamp''"
  from d obtain x where x: "map_of yd d = Some x"
    by (cases "map_of yd d") (auto simp: map_of_eq_None_iff)
  from assms[rule_format, OF x nt] obtain fs where "x = JObj fs" by (elim exE)
  with x show "\<exists>x. map_of yd d = Some x \<and> passes x" by (simp add: passes_JObj)
qed

text \<open>
  Claim C1, as the code has it. When the file holds a document and can be written, every
  district entry other than \<open>timestamp\<close> is a record, and the random values are in
  \<open>[0, 1)\<close>, \<open>add_emission_data_to_json\<close> returns True and writes a document with the
  same years and, under every year, the same districts, in order: no district is
  created. In it every district that was present without \<open>total_emission\<close> has its three
  emissions, each a multiple of 0.01 in the \<open>[min, max]\<close> of the district's density class,
  and \<open>total_emission\<close> equal to the rounded sum of the three.
\<close>

theorem generator_populates_present:
  assumes "content w = Doc data" and "writable w"
    and "\<forall>y yd d x. map_of data y = Some yd \<longrightarrow> map_of yd d = Some x \<longrightarrow>
           d \<noteq> ''timestamp'' \<longrightarrow> (\<exists>fs. x = JObj fs)"
    and "\<forall>n. 0 \<le> u n \<and> u n < 1"
  shows "\<exists>data'.
     add_emission_data_to_json u w = (True, w\<lparr>content := Doc data'\<rparr>) \<and>
     map fst data' = map fst data \<and>
     (\<forall>y yd.
        map_of data y = Some yd \<longrightarrow>
        (\<exists>yd'.
           map_of data' y = Some yd' \<and> map fst yd' = map fst yd \<and>
           (\<forall>d fs.
              map_of yd d = Some (JObj fs) \<longrightarrow> d \<noteq> ''timestamp'' \<longrightarrow>
              ''total_emission'' \<notin> fst ` set fs \<longrightarrow>
              (\<exists>fs' t i r.
                 map_of yd' d = Some (JObj fs') \<and>
                 map_of fs' ''transport_emission'' = Some (JNum t) \<and>
                 (\<exists>m::int. t = of_int m / 100) \<and>
                 rmin (transport (EMISSION_CONFIG (district_type_of d))) \<le> t \<and>
                 t \<le> rmax (transport (EMISSION_CONFIG (district_type_of d))) \<and>
                 map_of fs' ''industrial_emission'' = Some (JNum i) \<and>
                 (\<exists>m::int. i = of_int m / 100) \<and>
                 rmin (industrial (EMISSION_CONFIG (district_type_of d))) \<le> i \<and>
                 i \<le> rmax (industrial (EMISSION_CONFIG (district_type_of d))) \<and>
                 map_of fs' ''residential_emission'' = Some (JNum r) \<and>
                 (\<exists>m::int. r = of_int m / 100) \<and>
                 rmin (residential (EMISSION_CONFIG (district_type_of d))) \<le> r \<and>
                 r \<le> rmax (residential (EMISSION_CONFIG (district_type_of d))) \<and>
                 map_of fs' ''total_emission'' = Some (JNum (py_round2 (t + i + r)))))))"
proof -
  from assms(1) have load: "load_emission_data w = data"
    by (rule load_emission_data_Doc)
  have "\<forall>y \<in> set (map fst data). \<exists>yd. map_of data y = Some yd \<and> all_pass yd"
  proof
    fix y assume "y \<in> set (map fst data)"
    then obtain yd where yd: "map_of data y = Some yd"
      by (cases "map_of data y") (auto simp: map_of_eq_None_iff)
    from assms(3) have "\<forall>d x. map_of yd d = Some x \<longrightarrow> d \<noteq> ''timestamp'' \<longrightarrow> (\<exists>fs. x = JObj fs)"
      using yd by simp
    then have "all_pass yd" by (rule records_all_pass)
    with yd show "\<exists>yd. map_of data y = Some yd \<and> all_pass yd" by simp
  qed
  then have "\<exists>st. years_loop u (map fst data) (0, data) = Inr st"
    unfolding years_loop_success_iff .
  then obtain k data' where loop: "years_loop u (map fst data) (0, data) = Inr (k, data')"
    by auto
  with assms(2) have ret: "add_emission_data_to_json u w = (True, w\<lparr>content := Doc data'\<rparr>)"
    by (simp add: add_emission_data_to_json_def load save_emission_data_def)
  note fs = years_loop_fills[OF loop]
  from fs have keys: "map fst data' = map fst data"
    by (rule fills_store_keys)
  have year: "\<exists>yd'.
           map_of data' y = Some yd' \<and> map fst yd' = map fst yd \<and>
           (\<forall>d fs.
              map_of yd d = Some (JObj fs) \<longrightarrow> d \<noteq> ''timestamp'' \<longrightarrow>
              ''total_emission'' \<notin> fst ` set fs \<longrightarrow>
              (\<exists>fs' t i r.
                 map_of yd' d = Some (JObj fs') \<and>
                 map_of fs' ''transport_emission'' = Some (JNum t) \<and>
                 (\<exists>m::int. t = of_int m / 100) \<and>
                 rmin (transport (EMISSION_CONFIG (district_type_of d))) \<le> t \<and>
                 t \<le> rmax (transport (EMISSION_CONFIG (district_type_of d))) \<and>
                 map_of fs' ''industrial_emission'' = Some (JNum i) \<and>
                 (\<exists>m::int. i = of_int m / 100) \<and>
                 rmin (industrial (EMISSION_CONFIG (district_type_of d))) \<le> i \<and>
                 i \<le> rmax (industrial (EMISSION_CONFIG (district_type_of d))) \<and>
                 map_of fs' ''residential_emission'' = Some (JNum r) \<and>
                 (\<exists>m::int. r = of_int m / 100) \<and>
                 rmin (residential (EMISSION_CONFIG (district_type_of d))) \<le> r \<and>
                 r \<le> rmax (residential (EMISSION_CONFIG (district_type_of d))) \<and>
                 map_of fs' ''total_emission'' = Some (JNum (py_round2 (t + i + r)))))"
    if y: "map_of data y = Some yd" for y yd
  proof -
    from fs y obtain yd' where yd': "map_of data' y = Some yd'" "fills u yd yd'"
      by (rule fills_store_lookup)
    from y have mem: "y \<in> set (map fst data)" by (rule map_of_in_keys)
    have pop: "\<exists>fs' t i r.
                 map_of yd' d = Some (JObj fs') \<and>
                 map_of fs' ''transport_emission'' = Some (JNum t) \<and>
                 (\<exists>m::int. t = of_int m / 100) \<and>
                 rmin (transport (EMISSION_CONFIG (district_type_of d))) \<le> t \<and>
                 t \<le> rmax (transport (EMISSION_CONFIG (district_type_of d))) \<and>
                 map_of fs' ''industrial_emission'' = Some (JNum i) \<and>
                 (\<exists>m::int. i = of_int m / 100) \<and>
                 rmin (industrial (EMISSION_CONFIG (district_type_of d))) \<le> i \<and>
                 i \<le> rmax (industrial (EMISSION_CONFIG (district_type_of d))) \<and>
                 map_of fs' ''residential_emission'' = Some (JNum r) \<and>
                 (\<exists>m::int. r = of_int m / 100) \<and>
                 rmin (residential (EMISSION_CONFIG (district_type_of d))) \<le> r \<and>
                 r \<le> rmax (residential (EMISSION_CONFIG (district_type_of d))) \<and>
                 map_of fs' ''total_emission'' = Some (JNum (py_round2 (t + i + r)))"
      if d: "map_of yd d = Some (JObj fs)" and nt: "d \<noteq> ''timestamp''"
        and nf: "''total_emission'' \<notin> fst ` set fs"
      for d fs
    proof -
      from nf have "\<not> has_total (JObj fs)" by (simp add: has_total_JObj)
      from years_loop_populates[OF loop mem y nt d this] obtain yd'' j where
        "map_of data' y = Some yd''" "map_of yd'' d = Some (JObj (populated u d j fs))"
        by (elim exE conjE)
      with yd'(1) have p: "map_of yd' d = Some (JObj (populated u d j fs))" by simp
      note pf = populated_fields[OF assms(4), of d j fs]
      show ?thesis
        apply (rule exI[of _ "populated u d j fs"])
        apply (rule exI, rule exI, rule exI)
        apply (rule conjI)
         apply (rule p)
        apply (rule pf)
        done
    qed
    show ?thesis
      apply (rule exI[of _ yd'])
      apply (intro conjI)
        apply (rule yd'(1))
       apply (rule fills_keys[OF yd'(2)])
      apply (intro allI impI)
      apply (rule pop; assumption)
      done
  qed
  show ?thesis
    apply (rule exI[of _ data'])
    apply (intro conjI)
      apply (rule ret)
     apply (rule keys)
    apply (intro allI impI)
    apply (rule year; assumption)
    done
qed

theorem generator_populates_present_witness:
  "\<exists>data' yd' fs' t i r.
     add_emission_data_to_json (\<lambda>n. 1 / 2)
       \<lparr>content = Doc [(''2025'', [(''timestamp'', JStr ''t5''), (''Kolar'', JObj [])])],
        writable = True\<rparr>
       = (True, \<lparr>content = Doc data', writable = True\<rparr>) \<and>
     map fst data' = [''2025''] \<and>
     map_of data' ''2025'' = Some yd' \<and>
     map fst yd' = [''timestamp'', ''Kolar''] \<and>
     map_of yd' ''Kolar'' = Some (JObj fs') \<and>
     map_of fs' ''transport_emission'' = Some (JNum t) \<and>
     (\<exists>m::int. t = of_int m / 100) \<and> 800 \<le> t \<and> t \<le> 1800 \<and>
     map_of fs' ''industrial_emission'' = Some (JNum i) \<and>
     (\<exists>m::int. i = of_int m / 100) \<and> 500 \<le> i \<and> i \<le> 2000 \<and>
     map_of fs' ''residential_emission'' = Some (JNum r) \<and>
     (\<exists>m::int. r = of_int m / 100) \<and> 900 \<le> r \<and> r \<le> 1800 \<and>
     map_of fs' ''total_emission'' = Some (JNum (py_round2 (t + i + r)))"
proof -
  let ?yd = "[(''timestamp'', JStr ''t5''), (''Kolar'', JObj [])]"
  let ?data = "[(''2025'', ?yd)]"
  let ?w = "\<lparr>content = Doc ?data, writable = True\<rparr>"
  have h1: "content ?w = Doc ?data" by simp
  have h2: "writable ?w" by simp
  have h3: "\<forall>y yd d x. map_of ?data y = Some yd \<longrightarrow> map_of yd d = Some x \<longrightarrow>
           d \<noteq> ''timestamp'' \<longrightarrow> (\<exists>fs. x = JObj fs)"
    by (simp split: if_splits)
  have h4: "\<forall>n::nat. (0::rat) \<le> 1 / 2 \<and> (1::rat) / 2 < 1" by simp
  have kolar: "district_type_of ''Kolar'' = Suburban"
    by (simp add: district_type_of_def DISTRICT_TYPES_def)
  from generator_populates_present[OF h1 h2 h3, of "\<lambda>n. 1 / 2", OF h4] obtain data' where
    A: "add_emission_data_to_json (\<lambda>n. 1 / 2) ?w = (True, ?w\<lparr>content := Doc data'\<rparr>) \<and>
     map fst data' = map fst ?data \<and>
     (\<forall>y yd.
        map_of ?data y = Some yd \<longrightarrow>
        (\<exists>yd'.
           map_of data' y = Some yd' \<and> map fst yd' = map fst yd \<and>
           (\<forall>d fs.
              map_of yd d = Some (JObj fs) \<longrightarrow> d \<noteq> ''timestamp'' \<longrightarrow>
              ''total_emission'' \<notin> fst ` set fs \<longrightarrow>
              (\<exists>fs' t i r.
                 map_of yd' d = Some (JObj fs') \<and>
                 map_of fs' ''transport_emission'' = Some (JNum t) \<and>
                 (\<exists>m::int. t = of_int m / 100) \<and>
                 rmin (transport (EMISSION_CONFIG (district_type_of d))) \<le> t \<and>
                 t \<le> rmax (transport (EMISSION_CONFIG (district_type_of d))) \<and>
                 map_of fs' ''industrial_emission'' = Some (JNum i) \<and>
                 (\<exists>m::int. i = of_int m / 100) \<and>
                 rmin (industrial (EMISSION_CONFIG (district_type_of d))) \<le> i \<and>
                 i \<le> rmax (industrial (EMISSION_CONFIG (district_type_of d))) \<and>
                 map_of fs' ''residential_emission'' = Some (JNum r) \<and>
                 (\<exists>m::int. r = of_int m / 100) \<and>
                 rmin (residential (EMISSION_CONFIG (district_type_of d))) \<le> r \<and>
                 r \<le> rmax (residential (EMISSION_CONFIG (district_type_of d))) \<and>
                 map_of fs' ''total_emission'' = Some (JNum (py_round2 (t + i + r)))))))"
    by (elim exE)
  from A have ret: "add_emission_data_to_json (\<lambda>n. 1 / 2) ?w
      = (True, \<lparr>content = Doc data', writable = True\<rparr>)" by simp
  from A have keys: "map fst data' = [''2025'']" by simp
  have p1: "map_of ?data ''2025'' = Some ?yd" by simp
  have p2: "map_of ?yd ''Kolar'' = Some (JObj [])" by simp
  have p3: "''Kolar'' \<noteq> ''timestamp''" by simp
  have p4: "''total_emission'' \<notin> fst ` set ([] :: (string \<times> json) list)" by simp
  from A[THEN conjunct2, THEN conjunct2, rule_format, OF p1] obtain yd' where
    B: "map_of data' ''2025'' = Some yd' \<and> map fst yd' = map fst ?yd \<and>
           (\<forall>d fs.
              map_of ?yd d = Some (JObj fs) \<longrightarrow> d \<noteq> ''timestamp'' \<longrightarrow>
              ''total_emission'' \<notin> fst ` set fs \<longrightarrow>
              (\<exists>fs' t i r.
                 map_of yd' d = Some (JObj fs') \<and>
                 map_of fs' ''transport_emission'' = Some (JNum t) \<and>
                 (\<exists>m::int. t = of_int m / 100) \<and>
                 rmin (transport (EMISSION_CONFIG (district_type_of d))) \<le> t \<and>
                 t \<le> rmax (transport (EMISSION_CONFIG (district_type_of d))) \<and>
                 map_of fs' ''industrial_emission'' = Some (JNum i) \<and>
                 (\<exists>m::int. i = of_int m / 100) \<and>
                 rmin (industrial (EMISSION_CONFIG (district_type_of d))) \<le> i \<and>
                 i \<le> rmax (industrial (EMISSION_CONFIG (district_type_of d))) \<and>
                 map_of fs' ''residential_emission'' = Some (JNum r) \<and>
                 (\<exists>m::int. r = of_int m / 100) \<and>
                 rmin (residential (EMISSION_CONFIG (district_type_of d))) \<le> r \<and>
                 r \<le> rmax (residential (EMISSION_CONFIG (district_type_of d))) \<and>
                 map_of fs' ''total_emission'' = Some (JNum (py_round2 (t + i + r)))))"
    by (elim exE)
  from B have y1: "map_of data' ''2025'' = Some yd'" by (rule conjunct1)
  from B have y2: "map fst yd' = [''timestamp'', ''Kolar'']" by simp
  from B[THEN conjunct2, THEN conjunct2, rule_format, OF p2 p3 p4] obtain fs' t i r where
    C: "map_of yd' ''Kolar'' = Some (JObj fs') \<and>
        map_of fs' ''transport_emission'' = Some (JNum t) \<and>
        (\<exists>m::int. t = of_int m / 100) \<and>
        rmin (transport (EMISSION_CONFIG (district_type_of ''Kolar''))) \<le> t \<and>
        t \<le> rmax (transport (EMISSION_CONFIG (district_type_of ''Kolar''))) \<and>
        map_of fs' ''industrial_emission'' = Some (JNum i) \<and>
        (\<exists>m::int. i = of_int m / 100) \<and>
        rmin (industrial (EMISSION_CONFIG (district_type_of ''Kolar''))) \<le> i \<and>
        i \<le> rmax (industrial (EMISSION_CONFIG (district_type_of ''Kolar''))) \<and>
        map_of fs' ''residential_emission'' = Some (JNum r) \<and>
        (\<exists>m::int. r = of_int m / 100) \<and>
        rmin (residential (EMISSION_CONFIG (district_type_of ''Kolar''))) \<le> r \<and>
        r \<le> rmax (residential (EMISSION_CONFIG (district_type_of ''Kolar''))) \<and>
        map_of fs' ''total_emission'' = Some (JNum (py_round2 (t + i + r)))"
    by (elim exE)
  from C have C': "map_of yd' ''Kolar'' = Some (JObj fs') \<and>
        map_of fs' ''transport_emission'' = Some (JNum t) \<and>
        (\<exists>m::int. t = of_int m / 100) \<and> 800 \<le> t \<and> t \<le> 1800 \<and>
        map_of fs' ''industrial_emission'' = Some (JNum i) \<and>
        (\<exists>m::int. i = of_int m / 100) \<and> 500 \<le> i \<and> i \<le> 2000 \<and>
        map_of fs' ''residential_emission'' = Some (JNum r) \<and>
        (\<exists>m::int. r = of_int m / 100) \<and> 900 \<le> r \<and> r \<le> 1800 \<and>
        map_of fs' ''total_emission'' = Some (JNum (py_round2 (t + i + r)))"
    unfolding kolar by simp
  show ?thesis
    apply (rule exI[of _ data'], rule exI[of _ yd'], rule exI[of _ fs'])
    apply (rule exI[of _ t], rule exI[of _ i], rule exI[of _ r])
    apply (rule conjI, rule ret)
    apply (rule conjI, rule keys)
    apply (rule conjI, rule y1)
    apply (rule conjI, rule y2)
    apply (rule C')
    done
qed

text \<open>
  Claim C1, as the specification states it, fails: from the empty store a run writes the
  empty store back, so the registered district Kolar has no record and no emission view.
\<close>

theorem generator_populates_present_counterexample:
  "map_of DISTRICT_TYPES ''Kolar'' = Some Suburban \<and>
   add_emission_data_to_json (\<lambda>n. 1 / 2) \<lparr>content = Doc [], writable = True\<rparr>
     = (True, \<lparr>content = Doc [], writable = True\<rparr>) \<and>
   get_emission_by_district ''Kolar'' ''2025''
     (snd (add_emission_data_to_json (\<lambda>n. 1 / 2) \<lparr>content = Doc [], writable = True\<rparr>))
     = None"
  by (simp add: DISTRICT_TYPES_def add_emission_data_to_json_def load_emission_data_def
      read_json_def save_emission_data_def get_emission_by_district_def)

end
